theory Spec2Isabelle
  imports Complex_Main "HOL-Library.Multiset"
begin

section \<open>JavaScript collections used by both charts\<close>

text \<open>
  \<^verbatim>\<open>new Set(xs)\<close> iterates \<open>xs\<close> and appends every value it has not seen yet;
  \<^verbatim>\<open>Array.from\<close> and the spread \<^verbatim>\<open>[...set]\<close> read the set back in that insertion
  order. \<open>set_from seen xs\<close> is the loop, \<open>seen\<close> the values inserted so far.
\<close>

fun set_from :: "'a list \<Rightarrow> 'a list \<Rightarrow> 'a list" where
  "set_from seen [] = seen"
| "set_from seen (x # xs) = set_from (if x \<in> set seen then seen else seen @ [x]) xs"

definition js_unique :: "'a list \<Rightarrow> 'a list" where
  "js_unique xs = set_from [] xs"

text \<open>Position of the first occurrence of a value (\<^verbatim>\<open>indexOf\<close>; the length when absent).\<close>

fun first_index :: "'a list \<Rightarrow> 'a \<Rightarrow> nat" where
  "first_index [] a = 0"
| "first_index (x # xs) a = (if x = a then 0 else Suc (first_index xs a))"

section \<open>MedalLineChart: records and the transformer\<close>

text \<open>One row of the medals feed, and one pivoted row of \<^verbatim>\<open>filteredData\<close>.\<close>

record medal_row =
  Year :: int
  Country :: string
  Gold :: int
  Silver :: int
  Bronze :: int

record series_point =
  name :: string
  sp_Gold :: int
  sp_Silver :: int
  sp_Bronze :: int

definition to_point :: "medal_row \<Rightarrow> series_point" where
  "to_point d = \<lparr>name = Country d, sp_Gold = Gold d, sp_Silver = Silver d, sp_Bronze = Bronze d\<rparr>"

definition uniqueKeys :: "string list" where
  "uniqueKeys = [''Gold'', ''Silver'', ''Bronze'']"

text \<open>
  The body of the second effect of \<^verbatim>\<open>MedalLineChart\<close>, past its guard: the rows of the
  selected year, narrowed to the applied countries when that list is not empty, each
  mapped to a point.
\<close>

definition transform :: "medal_row list \<Rightarrow> int \<Rightarrow> string list \<Rightarrow> series_point list" where
  "transform medals selYear applied =
     (let yearData = filter (\<lambda>d. Year d = selYear) medals;
          yearData' = (if length applied > 0
                       then filter (\<lambda>d. Country d \<in> set applied) yearData
                       else yearData)
      in map to_point yearData')"

text \<open>
  The rows the transformer keeps (the "filtered subset" of the specification), and the
  transformer with no country filter at all, written from the specification's words.
\<close>

definition filtered_subset :: "medal_row list \<Rightarrow> int \<Rightarrow> string list \<Rightarrow> medal_row list" where
  "filtered_subset medals selYear applied =
     filter (\<lambda>d. Year d = selYear \<and> (applied = [] \<or> Country d \<in> set applied)) medals"

definition transform_unfiltered :: "medal_row list \<Rightarrow> int \<Rightarrow> series_point list" where
  "transform_unfiltered medals selYear = map to_point (filter (\<lambda>d. Year d = selYear) medals)"

section \<open>MedalLineChart: the ordinal colour scale and the drawing\<close>

text \<open>
  \<^verbatim>\<open>d3.scaleOrdinal(range)\<close> keeps a domain of the keys seen so far. A call with a known
  key returns the range entry at the key's position modulo the range's length; a call
  with a new key first appends it to the domain. \<^verbatim>\<open>.domain(keys)\<close> replaces the domain
  by the distinct keys in order. Both palettes below have ten entries, so the index is
  always within the range.
\<close>

definition schemeCategory10 :: "string list" where
  "schemeCategory10 = [''#1f77b4'', ''#ff7f0e'', ''#2ca02c'', ''#d62728'', ''#9467bd'',
                       ''#8c564b'', ''#e377c2'', ''#7f7f7f'', ''#bcbd22'', ''#17becf'']"

definition schemeTableau10 :: "string list" where
  "schemeTableau10 = [''#4e79a7'', ''#f28e2c'', ''#e15759'', ''#76b7b2'', ''#59a14f'',
                      ''#edc949'', ''#af7aa1'', ''#ff9da7'', ''#9c755f'', ''#bab0ab'']"

record ordinal =
  o_domain :: "string list"
  o_range :: "string list"

definition scaleOrdinal :: "string list \<Rightarrow> ordinal" where
  "scaleOrdinal rng = \<lparr>o_domain = [], o_range = rng\<rparr>"

definition set_domain :: "ordinal \<Rightarrow> string list \<Rightarrow> ordinal" where
  "set_domain sc ds = sc\<lparr>o_domain := js_unique ds\<rparr>"

definition scale_call :: "ordinal \<Rightarrow> string \<Rightarrow> string \<times> ordinal" where
  "scale_call sc d =
     (if d \<in> set (o_domain sc)
      then (o_range sc ! (first_index (o_domain sc) d mod length (o_range sc)), sc)
      else (o_range sc ! (length (o_domain sc) mod length (o_range sc)),
            sc\<lparr>o_domain := o_domain sc @ [d]\<rparr>))"

text \<open>The scale called on a sequence of keys, one after the other, as a selection does.\<close>

fun scale_all :: "ordinal \<Rightarrow> string list \<Rightarrow> string list \<times> ordinal" where
  "scale_all sc [] = ([], sc)"
| "scale_all sc (d # ds) =
     (let (c, sc1) = scale_call sc d; (cs, sc2) = scale_all sc1 ds in (c # cs, sc2))"

text \<open>
  What the third effect appends to \<^verbatim>\<open>#d3-chart\<close>. Of every path the model keeps the
  stroke colour and the title, of every axis its key, of every legend item its text
  and fill; the pixel geometry (scales, path data) is not modelled. The paths are drawn
  for the points sorted by Gold, ascending (a stable sort); the legend lists the names
  whose first position is their own (\<^verbatim>\<open>self.indexOf(value) === index\<close>).
\<close>

record line_svg =
  paths :: "(string \<times> string) list"
  axes :: "string list"
  legend :: "(string \<times> string) list"

definition legend_names :: "string list \<Rightarrow> string list" where
  "legend_names ns = map snd (filter (\<lambda>(i, v). first_index ns v = i) (enumerate 0 ns))"

definition draw_order :: "series_point list \<Rightarrow> string list" where
  "draw_order fd = map name (sort_key sp_Gold fd)"

definition draw_line_chart :: "series_point list \<Rightarrow> string list \<Rightarrow> line_svg" where
  "draw_line_chart fd ks =
     (let color0 = scaleOrdinal schemeCategory10;
          (strokes, color1) = scale_all color0 (draw_order fd);
          names = legend_names (map name fd);
          (fills, color2) = scale_all color1 names
      in \<lparr>paths = zip strokes (draw_order fd), axes = ks, legend = zip names fills\<rparr>)"

section \<open>MedalLineChart: component state, hooks and handlers\<close>

text \<open>
  Arrays are compared by identity in hook dependency lists, so every array of the state
  carries a reference: \<open>QueryRef\<close> for the arrays the data hook hands out, \<open>LocalRef\<close>
  for the arrays the component allocates (numbered by \<open>fresh\<close>).
\<close>

datatype ref = QueryRef nat | LocalRef nat

type_synonym 'a arr = "ref \<times> 'a list"

datatype js_error = TypeError | DuplicateKey

datatype view = Message string | ChartPage

text \<open>
  The state of one mounted \<^verbatim>\<open>MedalLineChart\<close>: the result of \<^verbatim>\<open>useGetMedalsQuery\<close>, the
  five \<^verbatim>\<open>useState\<close> cells, the children of \<^verbatim>\<open>#d3-chart\<close> (\<open>None\<close> while that element is
  not in the document), whether rendering has thrown, the dependency values each effect
  last ran with (\<open>None\<close> before the first commit), and two counters: how often the body
  of the transforming effect and of the drawing effect ran past its guard.
\<close>

record line_state =
  medalsData :: "medal_row arr option"
  isLoading :: bool
  isError :: bool
  selectedYear :: "int option"
  selectedCountries :: "string arr"
  appliedCountries :: "string arr"
  filteredData :: "series_point arr"
  keys :: "string arr"
  chart :: "line_svg list option"
  crashed :: bool
  fresh :: nat
  last1 :: "ref option option"
  last2 :: "(ref option \<times> int option \<times> ref) option"
  last3 :: "(ref \<times> ref) option"
  n_transform :: nat
  n_render :: nat

definition deps1 :: "line_state \<Rightarrow> ref option" where
  "deps1 st = map_option fst (medalsData st)"

definition deps2 :: "line_state \<Rightarrow> ref option \<times> int option \<times> ref" where
  "deps2 st = (deps1 st, selectedYear st, fst (appliedCountries st))"

definition deps3 :: "line_state \<Rightarrow> ref \<times> ref" where
  "deps3 st = (fst (filteredData st), fst (keys st))"

text \<open>\<^verbatim>\<open>[...new Set(medalsData.map(d => d.Year))].sort((a, b) => b - a)\<close>\<close>

definition years_desc :: "medal_row list \<Rightarrow> int list" where
  "years_desc medals = rev (sort (js_unique (map Year medals)))"

text \<open>
  The three effects. Each reads the values of the render it belongs to (\<open>s\<close>) and
  writes into the state being built (\<open>acc\<close>). A year is falsy when it is null,
  undefined (both \<open>None\<close>) or 0.
\<close>

definition effect1 :: "line_state \<Rightarrow> line_state \<Rightarrow> line_state" where
  "effect1 s acc =
     (case medalsData s of
        None \<Rightarrow> acc
      | Some (r, medals) \<Rightarrow>
          acc\<lparr>selectedYear := (case years_desc medals of [] \<Rightarrow> None | y # ys \<Rightarrow> Some y)\<rparr>)"

definition effect2 :: "line_state \<Rightarrow> line_state \<Rightarrow> line_state" where
  "effect2 s acc =
     (case medalsData s of
        None \<Rightarrow> acc
      | Some (r, medals) \<Rightarrow>
          (case selectedYear s of
             None \<Rightarrow> acc
           | Some y \<Rightarrow>
               if y = 0 then acc
               else acc\<lparr>filteredData :=
                          (LocalRef (fresh acc), transform medals y (snd (appliedCountries s))),
                        keys := (LocalRef (fresh acc + 1), uniqueKeys),
                        fresh := fresh acc + 2,
                        n_transform := n_transform acc + 1\<rparr>))"

definition effect3 :: "line_state \<Rightarrow> line_state \<Rightarrow> line_state" where
  "effect3 s acc =
     (if length (snd (filteredData s)) = 0 \<or> length (snd (keys s)) = 0 then acc
      else acc\<lparr>chart := (case chart acc of
                           None \<Rightarrow> None
                         | Some old \<Rightarrow> Some [draw_line_chart (snd (filteredData s)) (snd (keys s))]),
               n_render := n_render acc + 1\<rparr>)"

text \<open>
  What the component returns. Past the two early returns, \<^verbatim>\<open>medalsData.map\<close> throws
  when the data is undefined.
\<close>

definition view_of :: "line_state \<Rightarrow> js_error + view" where
  "view_of st =
     (if isLoading st then Inr (Message ''Loading...'')
      else if isError st then Inr (Message ''Failed to load data.'')
      else (case medalsData st of None \<Rightarrow> Inl TypeError | Some d \<Rightarrow> Inr ChartPage))"

text \<open>
  One render and commit. A render that throws unmounts the component. Otherwise the
  document is updated (\<^verbatim>\<open>#d3-chart\<close> exists exactly on the chart page, and is created
  empty), then every effect whose dependencies differ from those of its last run is run,
  in order, and the dependencies are recorded.
\<close>

definition mount_chart :: "view \<Rightarrow> 'a list option \<Rightarrow> 'a list option" where
  "mount_chart v c =
     (case v of Message m \<Rightarrow> None | ChartPage \<Rightarrow> (case c of None \<Rightarrow> Some [] | Some old \<Rightarrow> Some old))"

definition run_effects :: "line_state \<Rightarrow> line_state \<Rightarrow> line_state" where
  "run_effects s acc =
     (let a1 = (if last1 s = Some (deps1 s) then acc else effect1 s acc);
          a2 = (if last2 s = Some (deps2 s) then a1 else effect2 s a1);
          a3 = (if last3 s = Some (deps3 s) then a2 else effect3 s a2)
      in a3\<lparr>last1 := Some (deps1 s), last2 := Some (deps2 s), last3 := Some (deps3 s)\<rparr>)"

definition commit :: "line_state \<Rightarrow> line_state" where
  "commit st =
     (if crashed st then st
      else (case view_of st of
              Inl e \<Rightarrow> st\<lparr>chart := None, crashed := True\<rparr>
            | Inr v \<Rightarrow> run_effects st (st\<lparr>chart := mount_chart v (chart st)\<rparr>)))"

text \<open>
  State set in an effect renders again; the passes stop when one changes nothing. \<open>settle\<close>
  runs at most \<open>n\<close> passes; three always reach a state that a further pass leaves
  alone (lemma \<open>settle_fixpoint\<close> below).
\<close>

fun settle :: "nat \<Rightarrow> line_state \<Rightarrow> line_state" where
  "settle 0 st = st"
| "settle (Suc n) st = (let st' = commit st in if st' = st then st else settle n st')"

text \<open>
  The events: a new result of the data hook, and the three handlers of the controls,
  which exist only while the chart page is shown.
  \<^item> year \<^verbatim>\<open>onChange\<close>: \<^verbatim>\<open>setSelectedYear(Number(e.target.value)); setAppliedCountries([])\<close>
  \<^item> country \<^verbatim>\<open>onChange\<close>: \<^verbatim>\<open>setSelectedCountries(Array.from(e.target.selectedOptions, ...))\<close>
  \<^item> Apply \<^verbatim>\<open>onClick\<close>: \<^verbatim>\<open>setAppliedCountries(selectedCountries)\<close>
\<close>

datatype event =
    Query "medal_row arr option" bool bool
  | YearChange int
  | StagedChange "string list"
  | Apply

definition controls_shown :: "line_state \<Rightarrow> bool" where
  "controls_shown st = (\<not> crashed st \<and> view_of st = Inr ChartPage)"

fun handle :: "event \<Rightarrow> line_state \<Rightarrow> line_state" where
  "handle (Query d l e) st = st\<lparr>medalsData := d, isLoading := l, isError := e\<rparr>"
| "handle (YearChange y) st =
     (if controls_shown st
      then st\<lparr>selectedYear := Some y, appliedCountries := (LocalRef (fresh st), []),
              fresh := fresh st + 1\<rparr>
      else st)"
| "handle (StagedChange cs) st =
     (if controls_shown st
      then st\<lparr>selectedCountries := (LocalRef (fresh st), cs), fresh := fresh st + 1\<rparr>
      else st)"
| "handle Apply st =
     (if controls_shown st then st\<lparr>appliedCountries := selectedCountries st\<rparr> else st)"

definition dispatch :: "event \<Rightarrow> line_state \<Rightarrow> line_state" where
  "dispatch ev st = settle 3 (handle ev st)"

text \<open>The component before its first render, given the first result of the data hook.\<close>

definition init_state :: "medal_row arr option \<Rightarrow> bool \<Rightarrow> bool \<Rightarrow> line_state" where
  "init_state d l e =
     \<lparr>medalsData = d, isLoading = l, isError = e, selectedYear = None,
      selectedCountries = (LocalRef 0, []), appliedCountries = (LocalRef 1, []),
      filteredData = (LocalRef 2, []), keys = (LocalRef 3, []),
      chart = None, crashed = False, fresh = 4,
      last1 = None, last2 = None, last3 = None, n_transform = 0, n_render = 0\<rparr>"

definition mount :: "medal_row arr option \<Rightarrow> bool \<Rightarrow> bool \<Rightarrow> line_state" where
  "mount d l e = settle 3 (init_state d l e)"

definition run :: "line_state \<Rightarrow> event list \<Rightarrow> line_state" where
  "run st evs = foldl (\<lambda>s ev. dispatch ev s) st evs"

text \<open>
  Two invariants of the states the component reaches: a further render pass changes
  nothing, and the references of the staged and applied arrays are below \<open>fresh\<close>.
\<close>

definition settled :: "line_state \<Rightarrow> bool" where
  "settled st = (commit st = st)"

fun ref_lt :: "nat \<Rightarrow> ref \<Rightarrow> bool" where
  "ref_lt n (LocalRef k) = (k < n)"
| "ref_lt n (QueryRef k) = True"

definition refs_ok :: "line_state \<Rightarrow> bool" where
  "refs_ok st = (ref_lt (fresh st) (fst (selectedCountries st)) \<and>
                 ref_lt (fresh st) (fst (appliedCountries st)))"

section \<open>GDPStreamGraph: parsing, grouping and the country universe\<close>

text \<open>
  A row of the GDP feed. \<open>gdp_value\<close> is \<^verbatim>\<open>+d["GDP per capita"]\<close>: \<open>None\<close> when the
  field is missing or not a number, which \<^verbatim>\<open>|| 0\<close> turns into 0. A parsed row carries the
  \<^verbatim>\<open>Date\<close> \<^verbatim>\<open>new Date(d.Year, 0, 1)\<close>, identified by its calendar year; a two-digit
  year counts from 1900. A \<^verbatim>\<open>Date\<close> holds at most 8.64e15 milliseconds either side of 1970:
  the first of January is a date for the years -271820 to 275760, and for every other
  year the result is the Invalid Date (\<open>None\<close>), whose key in \<^verbatim>\<open>d3.index\<close> is \<^verbatim>\<open>NaN\<close>, one
  and the same for all of them.
\<close>

record gdp_row =
  gdp_Year :: int
  gdp_Country :: string
  gdp_value :: "real option"

record parsed_row =
  year :: "int option"
  country :: string
  gdpPerCapita :: real

definition date_year :: "int \<Rightarrow> int option" where
  "date_year y =
     (let full = (if 0 \<le> y \<and> y \<le> 99 then 1900 + y else y)
      in if - 271820 \<le> full \<and> full \<le> 275760 then Some full else None)"

definition parse_row :: "gdp_row \<Rightarrow> parsed_row" where
  "parse_row d = \<lparr>year = date_year (gdp_Year d), country = gdp_Country d,
                  gdpPerCapita = (case gdp_value d of None \<Rightarrow> 0 | Some v \<Rightarrow> v)\<rparr>"

text \<open>
  \<^verbatim>\<open>d3.index(parsedData, d => d.year, d => d.country)\<close>: the rows grouped by year and,
  within a year, by country, both in first-seen order of the keys; it throws when two rows
  share a year and a country.
\<close>

definition d3_group :: "('a \<Rightarrow> 'k) \<Rightarrow> 'a list \<Rightarrow> ('k \<times> 'a list) list" where
  "d3_group f xs = map (\<lambda>k. (k, filter (\<lambda>x. f x = k) xs)) (js_unique (map f xs))"

type_synonym year_index = "(int option \<times> (string \<times> parsed_row) list) list"

definition d3_index :: "parsed_row list \<Rightarrow> js_error + year_index" where
  "d3_index rows =
     (let nested = map (\<lambda>(y, rs). (y, d3_group country rs)) (d3_group year rows)
      in if list_all (\<lambda>(y, cs). list_all (\<lambda>(c, leaf). length leaf = 1) cs) nested
         then Inr (map (\<lambda>(y, cs). (y, map (\<lambda>(c, leaf). (c, hd leaf)) cs)) nested)
         else Inl DuplicateKey)"

text \<open>
  \<^verbatim>\<open>selectedCountries.length > 0 ? selectedCountries
     : Array.from(new Set(parsedData.map(d => d.country))).slice(0, 10)\<close>
\<close>

definition stream_countries :: "string list \<Rightarrow> parsed_row list \<Rightarrow> string list" where
  "stream_countries selected parsed =
     (if length selected > 0 then selected else take 10 (js_unique (map country parsed)))"

section \<open>JavaScript numbers\<close>

text \<open>
  A JavaScript number is a double, and \<^verbatim>\<open>+\<close>, \<^verbatim>\<open>-\<close>, \<^verbatim>\<open>*\<close> and \<^verbatim>\<open>/\<close> return the exact result
  rounded to the nearest double, a tie going to the even significand. \<open>double x\<close> is that
  rounding: with \<open>binade x\<close> the exponent of the power of two at or below \<open>\<bar>x\<bar>\<close>
  (\<open>binade_up\<close> halves a number from 2 on, \<open>binade_down\<close> doubles one below 1), the
  doubles around \<open>x\<close> are the multiples of \<open>2 powi ulp_exp x\<close> (53 significant bits, and no
  exponent below -1074), and \<open>rne\<close> rounds to the nearest integer, a half to the even one.
  A result beyond the largest double is an infinity in JavaScript; infinities and \<^verbatim>\<open>NaN\<close>
  are not modelled, \<open>double\<close> rounds there as if the exponent had no upper bound.
\<close>

function binade_up :: "real \<Rightarrow> int" where
  "binade_up a = (if a < 2 then 0 else binade_up (a / 2) + 1)"
  by pat_completeness auto
termination
proof (relation "measure (\<lambda>a. nat \<lfloor>a\<rfloor>)")
  show "wf (measure (\<lambda>a::real. nat \<lfloor>a\<rfloor>))" by simp
next
  fix a :: real assume "\<not> a < 2"
  then have a: "2 \<le> a" by simp
  have "\<lfloor>a / 2\<rfloor> < \<lfloor>a\<rfloor>"
  proof -
    have "a / 2 \<le> a - 1" using a by simp
    then have "\<lfloor>a / 2\<rfloor> \<le> \<lfloor>a - 1\<rfloor>" by (rule floor_mono)
    then show ?thesis by simp
  qed
  moreover have "0 < \<lfloor>a\<rfloor>" using a by simp
  ultimately show "(a / 2, a) \<in> measure (\<lambda>a. nat \<lfloor>a\<rfloor>)" by simp
qed

function binade_down :: "real \<Rightarrow> int" where
  "binade_down a = (if a \<le> 0 \<or> 1 \<le> a then 0 else binade_down (a * 2) - 1)"
  by pat_completeness auto
termination
proof (relation "measure (\<lambda>a. nat \<lceil>1 / a\<rceil>)")
  show "wf (measure (\<lambda>a::real. nat \<lceil>1 / a\<rceil>))" by simp
next
  fix a :: real assume "\<not> (a \<le> 0 \<or> 1 \<le> a)"
  then have a: "0 < a" "a < 1" by simp_all
  have big: "1 < 1 / a" using a by simp
  have "\<lceil>1 / (a * 2)\<rceil> < \<lceil>1 / a\<rceil>"
  proof -
    have "1 / (a * 2) \<le> 1 / a - 1 / 2" using a big by (simp add: field_simps)
    moreover have "1 / a - 1/2 \<le> of_int \<lceil>1 / a\<rceil> - 1/2" by simp
    ultimately have "1 / (a * 2) \<le> of_int \<lceil>1 / a\<rceil> - 1 / 2" by linarith
    then have "\<lceil>1 / (a * 2)\<rceil> \<le> \<lceil>of_int \<lceil>1 / a\<rceil> - (1 / 2 :: real)\<rceil>" by (rule ceiling_mono)
    also have "\<dots> \<le> \<lceil>1 / a\<rceil>" by (simp add: ceiling_le_iff)
    finally have le: "\<lceil>1 / (a * 2)\<rceil> \<le> \<lceil>1 / a\<rceil>" .
    show ?thesis
    proof (rule ccontr)
      assume "\<not> ?thesis"
      with le have eq: "\<lceil>1 / (a * 2)\<rceil> = \<lceil>1 / a\<rceil>" by simp
      have "of_int \<lceil>1 / a\<rceil> - 1 < 1 / (a * 2)" using eq by (metis ceiling_correct)
      moreover have "1 / a \<le> of_int \<lceil>1 / a\<rceil>" by simp
      moreover have "1 / (a * 2) = (1 / a) / 2" by simp
      moreover have "2 \<le> \<lceil>1 / a\<rceil>" using big by (simp add: le_ceiling_iff)
      then have "2 \<le> real_of_int \<lceil>1 / a\<rceil>" by linarith
      ultimately show False by linarith
    qed
  qed
  moreover have "0 < \<lceil>1 / a\<rceil>" using big a by (simp add: less_ceiling_iff)
  ultimately show "(a * 2, a) \<in> measure (\<lambda>a. nat \<lceil>1 / a\<rceil>)" by simp
qed

declare binade_up.simps [simp del] binade_down.simps [simp del]

definition binade :: "real \<Rightarrow> int" where
  "binade x = (if 1 \<le> \<bar>x\<bar> then binade_up \<bar>x\<bar> else binade_down \<bar>x\<bar>)"

definition rne :: "real \<Rightarrow> int" where
  "rne q = (let f = \<lfloor>q\<rfloor>; r = q - of_int f
            in if r < 1 / 2 then f else if 1 / 2 < r then f + 1 else if even f then f else f + 1)"

definition ulp_exp :: "real \<Rightarrow> int" where
  "ulp_exp x = max (binade x - 52) (- 1074)"

definition double :: "real \<Rightarrow> real" where
  "double x = (if x = 0 then 0 else of_int (rne (x / 2 powi ulp_exp x)) * 2 powi ulp_exp x)"

section \<open>GDPStreamGraph: the stack\<close>

text \<open>
  \<^verbatim>\<open>d3.stack().keys(countries).offset(d3.stackOffsetWiggle).order(d3.stackOrderInsideOut)\<close>
  with the value accessor of the component, applied to the entries of the index. The
  stack itself is library code: it is modelled after the published d3-shape routines.
  \<^item> the value of a key at an entry is \<^verbatim>\<open>countryData.get(key)?.gdpPerCapita || 0\<close>;
  \<^item> the inside-out order takes the series by the position of their peak (a stable sort)
    and puts each on top or at the bottom, whichever total is smaller so far;
  \<^item> the wiggle offset gives the lowest series a baseline per entry, starting at 0;
  \<^item> every further series, in that order, starts where the one below it ends.

  Every arithmetic operation of the routines rounds its result. The rounding is the
  parameter \<open>rnd\<close> of the routines, applied after every operation, in the order in which
  they compute; comparisons are exact. The component calls them with \<open>double\<close>.
\<close>

type_synonym rounding = "real \<Rightarrow> real"

definition stack_value :: "int option \<times> (string \<times> parsed_row) list \<Rightarrow> string \<Rightarrow> real" where
  "stack_value entry k = (case map_of (snd entry) k of None \<Rightarrow> 0 | Some p \<Rightarrow> gdpPerCapita p)"

text \<open>\<^verbatim>\<open>while (++i < n) if (v = +series[i][1]) s += v;\<close>\<close>

definition series_sum :: "rounding \<Rightarrow> real list \<Rightarrow> real" where
  "series_sum rnd vs = foldl (\<lambda>s v. if v \<noteq> 0 then rnd (s + v) else s) 0 vs"

fun peak_loop :: "real list \<Rightarrow> nat \<Rightarrow> nat \<Rightarrow> real option \<Rightarrow> nat" where
  "peak_loop [] i j vj = j"
| "peak_loop (v # vs) i j vj =
     (if (case vj of None \<Rightarrow> True | Some m \<Rightarrow> v > m)
      then peak_loop vs (Suc i) i (Some v)
      else peak_loop vs (Suc i) j vj)"

definition peak :: "real list \<Rightarrow> nat" where
  "peak vs = peak_loop vs 0 0 None"

definition stackOrderAppearance :: "real list list \<Rightarrow> nat list" where
  "stackOrderAppearance vals = sort_key (\<lambda>i. peak (vals ! i)) [0..<length vals]"

fun inside_out_loop ::
  "rounding \<Rightarrow> real list \<Rightarrow> nat list \<Rightarrow> real \<Rightarrow> real \<Rightarrow> nat list \<Rightarrow> nat list \<Rightarrow> nat list" where
  "inside_out_loop rnd totals [] topSum bottomSum tops bottoms = rev bottoms @ tops"
| "inside_out_loop rnd totals (j # rest) topSum bottomSum tops bottoms =
     (if topSum < bottomSum
      then inside_out_loop rnd totals rest (rnd (topSum + totals ! j)) bottomSum (tops @ [j]) bottoms
      else inside_out_loop rnd totals rest topSum (rnd (bottomSum + totals ! j)) tops (bottoms @ [j]))"

definition stackOrderInsideOut :: "rounding \<Rightarrow> real list list \<Rightarrow> nat list" where
  "stackOrderInsideOut rnd vals =
     inside_out_loop rnd (map (series_sum rnd) vals) (stackOrderAppearance vals) 0 0 [] []"

text \<open>
  The wiggle offset at entry \<open>j\<close>: the loop over the series in stacking order, with the
  sums \<open>s1\<close> and \<open>s2\<close> so far. \<open>lower\<close> holds \<^verbatim>\<open>skj0 - skj1\<close> of the series below, which
  \<^verbatim>\<open>s3\<close> adds one by one to half the difference of the series itself.
\<close>

fun wiggle_loop :: "rounding \<Rightarrow> real list list \<Rightarrow> nat \<Rightarrow> real list \<Rightarrow> real \<Rightarrow> real \<Rightarrow> real \<times> real" where
  "wiggle_loop rnd [] j lower s1 s2 = (s1, s2)"
| "wiggle_loop rnd (r # rs) j lower s1 s2 =
     (let sij0 = r ! j; sij1 = r ! (j - 1);
          d = rnd (sij0 - sij1);
          s3 = foldl (\<lambda>s dk. rnd (s + dk)) (rnd (d / 2)) lower
      in wiggle_loop rnd rs j (lower @ [d]) (rnd (s1 + sij0)) (rnd (s2 + rnd (s3 * sij0))))"

fun wiggle_base :: "rounding \<Rightarrow> real list list \<Rightarrow> nat \<Rightarrow> real" where
  "wiggle_base rnd rows 0 = 0"
| "wiggle_base rnd rows (Suc j) =
     (let (s1, s2) = wiggle_loop rnd rows (Suc j) [] 0 0
      in if s1 \<noteq> 0 then rnd (wiggle_base rnd rows j - rnd (s2 / s1)) else wiggle_base rnd rows j)"

text \<open>
  \<^verbatim>\<open>s1[j][1] += s1[j][0] = s0[j][1]\<close>: a series starts where the one below it ends, and
  ends at the rounded sum of its value and its start; for the lowest series the start is
  the baseline.
\<close>

fun stack_up :: "rounding \<Rightarrow> real list \<Rightarrow> real list list \<Rightarrow> (real \<times> real) list list" where
  "stack_up rnd base [] = []"
| "stack_up rnd base (row # rows) =
     (let band = map (\<lambda>(b, v). (b, rnd (v + b))) (zip base row)
      in band # stack_up rnd (map snd band) rows)"

record stack_series =
  s_key :: string
  s_index :: nat
  s_points :: "(real \<times> real) list"

definition d3_stack :: "rounding \<Rightarrow> string list \<Rightarrow> year_index \<Rightarrow> stack_series list" where
  "d3_stack rnd ks entries =
     (let vals = map (\<lambda>k. map (\<lambda>e. stack_value e k) entries) ks;
          oz = stackOrderInsideOut rnd vals;
          rows = map (\<lambda>i. vals ! i) oz;
          layers = stack_up rnd (map (wiggle_base rnd rows) [0..<length entries]) rows
      in map (\<lambda>i. \<lparr>s_key = ks ! i, s_index = first_index oz i,
                    s_points = layers ! first_index oz i\<rparr>) [0..<length ks])"

text \<open>
  The bands at entry \<open>j\<close>, listed from the bottom of the stack; whether each band
  starts where the one before it ends; and the domain of the vertical scale,
  \<^verbatim>\<open>[d3.min(series.flat(2)), d3.max(series.flat(2))]\<close>, the least and the greatest
  bound over all series and all entries.
\<close>

definition bands_at :: "stack_series list \<Rightarrow> nat \<Rightarrow> (real \<times> real) list" where
  "bands_at series j = map (\<lambda>s. s_points s ! j) (sort_key s_index series)"

fun contiguous :: "(real \<times> real) list \<Rightarrow> bool" where
  "contiguous (a # b # bs) = (snd a = fst b \<and> contiguous (b # bs))"
| "contiguous bs = True"

definition y_domain :: "stack_series list \<Rightarrow> (real \<times> real) option" where
  "y_domain series =
     (case concat (map (\<lambda>s. concat (map (\<lambda>(lo, hi). [lo, hi]) (s_points s))) series) of
        [] \<Rightarrow> None
      | x # xs \<Rightarrow> Some (fold min xs x, fold max xs x))"

text \<open>
  The heights of a list of bands and their bounds in a row, the value rows in stacking
  order, and the values at entry \<open>j\<close> in that order. Piling values one on another from
  a start \<open>lo\<close> gives the bands \<open>pile rnd lo vs\<close>.
\<close>

definition band_heights :: "(real \<times> real) list \<Rightarrow> real list" where
  "band_heights bs = map (\<lambda>(lo, hi). hi - lo) bs"

definition band_bounds :: "(real \<times> real) list \<Rightarrow> real list" where
  "band_bounds bs = concat (map (\<lambda>(lo, hi). [lo, hi]) bs)"

definition stack_rows :: "rounding \<Rightarrow> string list \<Rightarrow> year_index \<Rightarrow> real list list" where
  "stack_rows rnd ks entries =
     (let vals = map (\<lambda>k. map (\<lambda>e. stack_value e k) entries) ks
      in map (\<lambda>i. vals ! i) (stackOrderInsideOut rnd vals))"

definition values_at :: "rounding \<Rightarrow> string list \<Rightarrow> year_index \<Rightarrow> nat \<Rightarrow> real list" where
  "values_at rnd ks entries j = map (\<lambda>r. r ! j) (stack_rows rnd ks entries)"

fun pile :: "rounding \<Rightarrow> real \<Rightarrow> real list \<Rightarrow> (real \<times> real) list" where
  "pile rnd lo [] = []"
| "pile rnd lo (v # vs) = (lo, rnd (v + lo)) # pile rnd (rnd (v + lo)) vs"

section \<open>GDPStreamGraph: the drawing, the component and its handler\<close>

text \<open>
  Of every area the model keeps the fill, the title and the band; of the legend the
  texts and the fills.
\<close>

record stream_svg =
  areas :: "(string \<times> string \<times> (real \<times> real) list) list"
  s_legend :: "(string \<times> string) list"
  domain_y :: "(real \<times> real) option"

definition draw_stream :: "gdp_row list \<Rightarrow> string list \<Rightarrow> js_error + stream_svg" where
  "draw_stream gdp selected =
     (let parsedData = map parse_row gdp in
      case d3_index parsedData of
        Inl e \<Rightarrow> Inl e
      | Inr dataByYearAndCountry \<Rightarrow>
          (let countries = stream_countries selected parsedData;
               series = d3_stack double countries dataByYearAndCountry;
               color0 = set_domain (scaleOrdinal schemeTableau10) countries;
               (fills, color1) = scale_all color0 (map s_key series);
               (marks, color2) = scale_all color1 countries
           in Inr \<lparr>areas = zip fills (zip (map s_key series) (map s_points series)),
                   s_legend = zip countries marks,
                   domain_y = y_domain series\<rparr>))"

text \<open>
  The component: the result of \<^verbatim>\<open>useGetAllGDPPerCapitaQuery\<close>, the selection, the
  children of the element behind \<^verbatim>\<open>svgRef\<close> (\<open>None\<close> while it is not in the
  document) and a counter of the runs of the effect's body past its guard
  \<^verbatim>\<open>if (!gdpData) return\<close>.
\<close>

record stream_state =
  gdpData :: "gdp_row list option"
  g_isLoading :: bool
  g_isError :: bool
  g_selectedCountries :: "string list"
  svgRef :: "stream_svg list option"
  g_runs :: nat

definition stream_view :: "stream_state \<Rightarrow> js_error + view" where
  "stream_view st =
     (if g_isLoading st then Inr (Message ''Loading...'')
      else if g_isError st then Inr (Message ''Error loading data.'')
      else (case gdpData st of None \<Rightarrow> Inl TypeError | Some d \<Rightarrow> Inr ChartPage))"

definition stream_effect :: "stream_state \<Rightarrow> js_error + stream_state" where
  "stream_effect st =
     (case gdpData st of
        None \<Rightarrow> Inr st
      | Some gdp \<Rightarrow>
          (case draw_stream gdp (g_selectedCountries st) of
             Inl e \<Rightarrow> Inl e
           | Inr svg \<Rightarrow>
               Inr (st\<lparr>svgRef := (case svgRef st of None \<Rightarrow> None | Some old \<Rightarrow> Some [svg]),
                       g_runs := g_runs st + 1\<rparr>)))"

text \<open>A render of the component in which the effect runs (the first, or one after the
  data or the selection changed).\<close>

definition stream_commit :: "stream_state \<Rightarrow> js_error + stream_state" where
  "stream_commit st =
     (case stream_view st of
        Inl e \<Rightarrow> Inl e
      | Inr v \<Rightarrow> stream_effect (st\<lparr>svgRef := mount_chart v (svgRef st)\<rparr>))"

text \<open>The \<^verbatim>\<open>onChange\<close> of the multi-select; an option is a value with its label.\<close>

record select_option =
  opt_value :: string
  opt_label :: string

definition countryOptions :: "gdp_row list \<Rightarrow> select_option list" where
  "countryOptions gdp =
     map (\<lambda>c. \<lparr>opt_value = c, opt_label = c\<rparr>) (js_unique (map gdp_Country gdp))"

definition select_onChange :: "select_option list \<Rightarrow> stream_state \<Rightarrow> stream_state" where
  "select_onChange selected st =
     (if list_ex (\<lambda>option. opt_value option = ''All'') selected
      then st\<lparr>g_selectedCountries := []\<rparr>
      else st\<lparr>g_selectedCountries := map opt_value selected\<rparr>)"

text \<open>
  The two messages of each component, and the states of the line chart in which no
  effect can do anything: there is no data, and the drawing effect has either run for
  the current points or has no points.
\<close>

definition line_message :: "bool \<Rightarrow> string" where
  "line_message l = (if l then ''Loading...'' else ''Failed to load data.'')"

definition stream_message :: "bool \<Rightarrow> string" where
  "stream_message l = (if l then ''Loading...'' else ''Error loading data.'')"

definition idle :: "line_state \<Rightarrow> bool" where
  "idle st = (medalsData st = None \<and> (last3 st = Some (deps3 st) \<or> snd (filteredData st) = []))"

text \<open>
  The colour the ordinal scale gives a key when it has been called on the keys \<open>cats\<close>
  in order: the palette entry at the key's first-seen position, cycled.
\<close>

definition colour_at :: "string list \<Rightarrow> string list \<Rightarrow> string \<Rightarrow> string" where
  "colour_at palette cats c = palette ! (first_index (js_unique cats) c mod length palette)"

section \<open>Example inputs\<close>

text \<open>
  A small medals feed, and the states the line chart passes through when the user stages
  CHN in 2021, applies, changes the year to 2016 and applies again.
\<close>

definition usa21 :: medal_row where
  "usa21 = \<lparr>Year = 2021, Country = ''USA'', Gold = 39, Silver = 41, Bronze = 33\<rparr>"

definition chn21 :: medal_row where
  "chn21 = \<lparr>Year = 2021, Country = ''CHN'', Gold = 38, Silver = 32, Bronze = 18\<rparr>"

definition usa16 :: medal_row where
  "usa16 = \<lparr>Year = 2016, Country = ''USA'', Gold = 46, Silver = 37, Bronze = 38\<rparr>"

definition gbr16 :: medal_row where
  "gbr16 = \<lparr>Year = 2016, Country = ''GBR'', Gold = 27, Silver = 23, Bronze = 17\<rparr>"

definition feed :: "medal_row list" where
  "feed = [usa21, chn21, usa16, gbr16]"

definition chart21 :: line_svg where
  "chart21 = \<lparr>paths = [(''#1f77b4'', ''CHN''), (''#ff7f0e'', ''USA'')],
              axes = [''Gold'', ''Silver'', ''Bronze''],
              legend = [(''USA'', ''#ff7f0e''), (''CHN'', ''#1f77b4'')]\<rparr>"

definition chart_chn :: line_svg where
  "chart_chn = \<lparr>paths = [(''#1f77b4'', ''CHN'')], axes = [''Gold'', ''Silver'', ''Bronze''],
                legend = [(''CHN'', ''#1f77b4'')]\<rparr>"

definition chart16 :: line_svg where
  "chart16 = \<lparr>paths = [(''#1f77b4'', ''GBR''), (''#ff7f0e'', ''USA'')],
              axes = [''Gold'', ''Silver'', ''Bronze''],
              legend = [(''USA'', ''#ff7f0e''), (''GBR'', ''#1f77b4'')]\<rparr>"

definition s_mounted :: line_state where
  "s_mounted =
     \<lparr>medalsData = Some (QueryRef 0, feed), isLoading = False, isError = False,
      selectedYear = Some 2021, selectedCountries = (LocalRef 0, []),
      appliedCountries = (LocalRef 1, []),
      filteredData = (LocalRef 4, [to_point usa21, to_point chn21]),
      keys = (LocalRef 5, uniqueKeys), chart = Some [chart21], crashed = False, fresh = 6,
      last1 = Some (Some (QueryRef 0)), last2 = Some (Some (QueryRef 0), Some 2021, LocalRef 1),
      last3 = Some (LocalRef 4, LocalRef 5), n_transform = 1, n_render = 1\<rparr>"

definition s_staged :: line_state where
  "s_staged = s_mounted\<lparr>selectedCountries := (LocalRef 6, [''CHN'']), fresh := 7\<rparr>"

definition s_applied :: line_state where
  "s_applied =
     s_staged\<lparr>appliedCountries := (LocalRef 6, [''CHN'']),
              filteredData := (LocalRef 7, [to_point chn21]), keys := (LocalRef 8, uniqueKeys),
              chart := Some [chart_chn], fresh := 9,
              last2 := Some (Some (QueryRef 0), Some 2021, LocalRef 6),
              last3 := Some (LocalRef 7, LocalRef 8), n_transform := 2, n_render := 2\<rparr>"

definition s_year :: line_state where
  "s_year =
     s_applied\<lparr>selectedYear := Some 2016, appliedCountries := (LocalRef 9, []),
               filteredData := (LocalRef 10, [to_point usa16, to_point gbr16]),
               keys := (LocalRef 11, uniqueKeys), chart := Some [chart16], fresh := 12,
               last2 := Some (Some (QueryRef 0), Some 2016, LocalRef 9),
               last3 := Some (LocalRef 10, LocalRef 11), n_transform := 3, n_render := 3\<rparr>"

definition s_stale :: line_state where
  "s_stale =
     s_year\<lparr>appliedCountries := (LocalRef 6, [''CHN'']),
            filteredData := (LocalRef 12, []), keys := (LocalRef 13, uniqueKeys), fresh := 14,
            last2 := Some (Some (QueryRef 0), Some 2016, LocalRef 6),
            last3 := Some (LocalRef 12, LocalRef 13), n_transform := 4\<rparr>"

text \<open>Two small GDP feeds with the index \<^verbatim>\<open>d3.index\<close> builds from each.\<close>

definition gdp_point :: "int \<Rightarrow> string \<Rightarrow> real \<Rightarrow> gdp_row" where
  "gdp_point y c v = \<lparr>gdp_Year = y, gdp_Country = c, gdp_value = Some v\<rparr>"

definition rising_feed :: "gdp_row list" where
  "rising_feed = [gdp_point 2000 ''A'' 1, gdp_point 2001 ''A'' 3]"

definition rising_index :: year_index where
  "rising_index = [(Some 2000, [(''A'', \<lparr>year = Some 2000, country = ''A'', gdpPerCapita = 1\<rparr>)]),
                   (Some 2001, [(''A'', \<lparr>year = Some 2001, country = ''A'', gdpPerCapita = 3\<rparr>)])]"

definition pair_feed :: "gdp_row list" where
  "pair_feed = [gdp_point 2000 ''A'' 1, gdp_point 2000 ''B'' 2,
                gdp_point 2001 ''A'' 3, gdp_point 2001 ''B'' 1]"

definition pair_index :: year_index where
  "pair_index = [(Some 2000, [(''A'', \<lparr>year = Some 2000, country = ''A'', gdpPerCapita = 1\<rparr>),
                         (''B'', \<lparr>year = Some 2000, country = ''B'', gdpPerCapita = 2\<rparr>)]),
                 (Some 2001, [(''A'', \<lparr>year = Some 2001, country = ''A'', gdpPerCapita = 3\<rparr>),
                         (''B'', \<lparr>year = Some 2001, country = ''B'', gdpPerCapita = 1\<rparr>)])]"

text \<open>A feed with eleven countries, the eleventh larger than some of the first ten, and a second
  feed with the countries of \<open>pair_feed\<close> and other values.\<close>

definition eleven_feed :: "gdp_row list" where
  "eleven_feed =
     [gdp_point 2000 ''USA'' 36, gdp_point 2000 ''CHN'' 1, gdp_point 2000 ''JPN'' 39,
      gdp_point 2000 ''DEU'' 24, gdp_point 2000 ''IND'' 1, gdp_point 2000 ''GBR'' 28,
      gdp_point 2000 ''FRA'' 23, gdp_point 2000 ''ITA'' 20, gdp_point 2000 ''BRA'' 4,
      gdp_point 2000 ''CAN'' 24, gdp_point 2000 ''KOR'' 12, gdp_point 2001 ''USA'' 37,
      gdp_point 2001 ''KOR'' 11]"

definition other_pair_feed :: "gdp_row list" where
  "other_pair_feed = [gdp_point 1990 ''A'' 7, gdp_point 1990 ''B'' 9]"

text \<open>
  A feed with a negative value, and a medals feed in which USA and CHN change places in
  the ranking by Gold between 2008 and 2021.
\<close>

definition signed_feed :: "gdp_row list" where
  "signed_feed = [gdp_point 2000 ''A'' (- 1), gdp_point 2000 ''B'' 2]"

definition signed_index :: year_index where
  "signed_index = [(Some 2000, [(''A'', \<lparr>year = Some 2000, country = ''A'', gdpPerCapita = - 1\<rparr>),
                                (''B'', \<lparr>year = Some 2000, country = ''B'', gdpPerCapita = 2\<rparr>)])]"

text \<open>The doubles nearest to 0.1, 0.2 and 0.3, and a feed of one year with them.\<close>

definition tenth :: real where
  "tenth = 3602879701896397 / 36028797018963968"

definition two_tenths :: real where
  "two_tenths = 3602879701896397 / 18014398509481984"

definition three_tenths :: real where
  "three_tenths = 5404319552844595 / 18014398509481984"

definition tenths_feed :: "gdp_row list" where
  "tenths_feed = [gdp_point 2000 ''A'' tenth, gdp_point 2000 ''B'' two_tenths,
                  gdp_point 2000 ''C'' three_tenths]"

definition tenths_index :: year_index where
  "tenths_index =
     [(Some 2000, [(''A'', \<lparr>year = Some 2000, country = ''A'', gdpPerCapita = tenth\<rparr>),
                   (''B'', \<lparr>year = Some 2000, country = ''B'', gdpPerCapita = two_tenths\<rparr>),
                   (''C'', \<lparr>year = Some 2000, country = ''C'', gdpPerCapita = three_tenths\<rparr>)])]"

definition usa08 :: medal_row where
  "usa08 = \<lparr>Year = 2008, Country = ''USA'', Gold = 36, Silver = 39, Bronze = 37\<rparr>"

definition chn08 :: medal_row where
  "chn08 = \<lparr>Year = 2008, Country = ''CHN'', Gold = 48, Silver = 22, Bronze = 30\<rparr>"

definition swap_feed :: "medal_row list" where
  "swap_feed = [usa21, chn21, usa08, chn08]"

section \<open>Properties of the transformer\<close>

lemma transform_subset: "transform medals y applied = map to_point (filtered_subset medals y applied)"
  by (cases applied) (auto simp: transform_def filtered_subset_def Let_def intro: filter_cong)

lemma transform_no_selection: "transform medals y [] = map to_point (filter (\<lambda>d. Year d = y) medals)"
  by (simp add: transform_def)

lemma transform_points:
  "length (transform medals y applied) = length (filtered_subset medals y applied)"
  "i < length (filtered_subset medals y applied) \<Longrightarrow>
     transform medals y applied ! i = to_point (filtered_subset medals y applied ! i)"
  by (simp_all add: transform_subset)

lemma filtered_subset_distinct:
  assumes "distinct (map (\<lambda>d. (Year d, Country d)) medals)"
  shows "distinct (map Country (filtered_subset medals y applied))"
proof -
  have "distinct (map (\<lambda>d. (Year d, Country d)) (filtered_subset medals y applied))"
    using assms by (simp add: filtered_subset_def distinct_map_filter)
  moreover have "\<forall>d \<in> set (filtered_subset medals y applied). Year d = y"
    by (simp add: filtered_subset_def)
  ultimately show ?thesis
    by (auto simp: distinct_map inj_on_def)
qed

lemma name_transform: "map name (transform medals y applied) = map Country (filtered_subset medals y applied)"
  by (simp add: transform_subset to_point_def comp_def)

section \<open>The render loop reaches a fixpoint\<close>

lemma settle_3: "settle 3 st = commit (commit (commit st))"
  by (simp add: numeral_3_eq_3 Let_def)

lemma commit_crashed: "crashed st \<Longrightarrow> commit st = st"
  by (simp add: commit_def)

lemma effect1_sel [simp]:
  "medalsData (effect1 s a) = medalsData a" "isLoading (effect1 s a) = isLoading a"
  "isError (effect1 s a) = isError a" "selectedCountries (effect1 s a) = selectedCountries a"
  "appliedCountries (effect1 s a) = appliedCountries a" "filteredData (effect1 s a) = filteredData a"
  "keys (effect1 s a) = keys a" "chart (effect1 s a) = chart a" "crashed (effect1 s a) = crashed a"
  "fresh (effect1 s a) = fresh a" "last1 (effect1 s a) = last1 a" "last2 (effect1 s a) = last2 a"
  "last3 (effect1 s a) = last3 a" "n_transform (effect1 s a) = n_transform a"
  "n_render (effect1 s a) = n_render a"
  by (simp_all add: effect1_def split: option.splits prod.splits)

lemma effect2_sel [simp]:
  "medalsData (effect2 s a) = medalsData a" "isLoading (effect2 s a) = isLoading a"
  "isError (effect2 s a) = isError a" "selectedCountries (effect2 s a) = selectedCountries a"
  "appliedCountries (effect2 s a) = appliedCountries a" "selectedYear (effect2 s a) = selectedYear a"
  "chart (effect2 s a) = chart a" "crashed (effect2 s a) = crashed a"
  "last1 (effect2 s a) = last1 a" "last2 (effect2 s a) = last2 a"
  "last3 (effect2 s a) = last3 a" "n_render (effect2 s a) = n_render a"
  by (simp_all add: effect2_def split: option.splits prod.splits)

lemma effect3_sel [simp]:
  "medalsData (effect3 s a) = medalsData a" "isLoading (effect3 s a) = isLoading a"
  "isError (effect3 s a) = isError a" "selectedCountries (effect3 s a) = selectedCountries a"
  "appliedCountries (effect3 s a) = appliedCountries a" "selectedYear (effect3 s a) = selectedYear a"
  "filteredData (effect3 s a) = filteredData a" "keys (effect3 s a) = keys a"
  "crashed (effect3 s a) = crashed a" "fresh (effect3 s a) = fresh a"
  "last1 (effect3 s a) = last1 a" "last2 (effect3 s a) = last2 a"
  "last3 (effect3 s a) = last3 a" "n_transform (effect3 s a) = n_transform a"
  by (simp_all add: effect3_def split: option.splits prod.splits)

lemma effect3_mounted [simp]: "(chart (effect3 s a) = None) = (chart a = None)"
  by (simp add: effect3_def split: option.splits)


lemma run_effects_sel [simp]:
  "medalsData (run_effects s a) = medalsData a" "isLoading (run_effects s a) = isLoading a"
  "isError (run_effects s a) = isError a" "selectedCountries (run_effects s a) = selectedCountries a"
  "appliedCountries (run_effects s a) = appliedCountries a" "crashed (run_effects s a) = crashed a"
  "last1 (run_effects s a) = Some (deps1 s)" "last2 (run_effects s a) = Some (deps2 s)"
  "last3 (run_effects s a) = Some (deps3 s)"
  by (simp_all add: run_effects_def Let_def)

lemma run_effects_year:
  "last1 s = Some (deps1 s) \<Longrightarrow> selectedYear (run_effects s a) = selectedYear a"
  by (simp add: run_effects_def Let_def)

lemma run_effects_data:
  assumes "last2 s = Some (deps2 s)"
  shows "filteredData (run_effects s a) = filteredData a" "keys (run_effects s a) = keys a"
    "fresh (run_effects s a) = fresh a" "n_transform (run_effects s a) = n_transform a"
  using assms by (simp_all add: run_effects_def Let_def)

lemma run_effects_chart:
  "last3 s = Some (deps3 s) \<Longrightarrow> chart (run_effects s a) = chart a"
  "last3 s = Some (deps3 s) \<Longrightarrow> n_render (run_effects s a) = n_render a"
  by (simp_all add: run_effects_def Let_def)

lemma run_effects_mounted: "(chart (run_effects s a) = None) = (chart a = None)"
  by (simp add: run_effects_def Let_def)

lemma run_effects_quiet:
  assumes "last1 s = Some (deps1 s)" "last2 s = Some (deps2 s)" "last3 s = Some (deps3 s)"
  shows "run_effects s s = s"
  using assms[symmetric] by (simp add: run_effects_def)

lemma commit_frame [simp]:
  "medalsData (commit st) = medalsData st"
  "isLoading (commit st) = isLoading st"
  "isError (commit st) = isError st"
  "appliedCountries (commit st) = appliedCountries st"
  "selectedCountries (commit st) = selectedCountries st"
  by (simp_all add: commit_def split: sum.splits)

lemma view_commit [simp]: "view_of (commit st) = view_of st"
  by (simp add: view_of_def)

lemma deps1_commit [simp]: "deps1 (commit st) = deps1 st"
  by (simp add: deps1_def)

lemma commit_throw: "\<not> crashed st \<Longrightarrow> view_of st = Inl e \<Longrightarrow> crashed (commit st)"
  by (simp add: commit_def)

lemma mount_chart_idem: "mount_chart v (mount_chart v c) = mount_chart v c"
  by (simp add: mount_chart_def split: view.splits option.splits)

lemma commit_marks:
  assumes "\<not> crashed st" "view_of st = Inr v"
  shows "\<not> crashed (commit st)"
    and "last1 (commit st) = Some (deps1 st)"
    and "last2 (commit st) = Some (deps2 st)"
    and "last3 (commit st) = Some (deps3 st)"
  using assms by (simp_all add: commit_def)

lemma commit_mounted:
  assumes "\<not> crashed st" "view_of st = Inr v"
  shows "mount_chart v (chart (commit st)) = chart (commit st)"
proof (cases "mount_chart v (chart st)")
  case None
  then have "chart (commit st) = None" using assms by (simp add: commit_def run_effects_mounted)
  moreover from None have "\<exists>m. v = Message m" by (simp add: mount_chart_def split: view.splits option.splits)
  ultimately show ?thesis by (auto simp: mount_chart_def)
next
  case (Some c)
  then have "chart (commit st) \<noteq> None" using assms by (simp add: commit_def run_effects_mounted)
  then obtain c' where "chart (commit st) = Some c'" by auto
  moreover from Some have "v = ChartPage" by (simp add: mount_chart_def split: view.splits option.splits)
  ultimately show ?thesis by (auto simp: mount_chart_def)
qed

lemma commit_keeps_year: "last1 st = Some (deps1 st) \<Longrightarrow> selectedYear (commit st) = selectedYear st"
  by (simp add: commit_def run_effects_year split: sum.splits)

lemma commit_keeps_data:
  assumes "last2 st = Some (deps2 st)"
  shows "filteredData (commit st) = filteredData st" "keys (commit st) = keys st"
    "fresh (commit st) = fresh st" "n_transform (commit st) = n_transform st"
  using assms by (simp_all add: commit_def run_effects_data split: sum.splits)

lemma commit_quiet:
  assumes "\<not> crashed st" "view_of st = Inr v" "last1 st = Some (deps1 st)" "last2 st = Some (deps2 st)"
    "last3 st = Some (deps3 st)" "mount_chart v (chart st) = chart st"
  shows "commit st = st"
  using assms by (simp add: commit_def run_effects_quiet)


lemma commit_fixpoint: "commit (commit (commit (commit st))) = commit (commit (commit st))"
proof (cases "crashed st")
  case True
  then show ?thesis by (simp add: commit_crashed)
next
  case False
  show ?thesis
  proof (cases "view_of st")
    case (Inl e)
    with False have "crashed (commit st)" by (rule commit_throw)
    then show ?thesis by (simp add: commit_crashed)
  next
    case (Inr v)
    let ?c1 = "commit st" and ?c2 = "commit (commit st)" and ?c3 = "commit (commit (commit st))"
    note m1 = commit_marks[OF False Inr]
    have v1: "view_of ?c1 = Inr v" by (simp add: Inr)
    note m2 = commit_marks[OF m1(1) v1]
    have v2: "view_of ?c2 = Inr v" by (simp add: Inr)
    note m3 = commit_marks[OF m2(1) v2]
    have v3: "view_of ?c3 = Inr v" by (simp add: Inr)
    have l1: "last1 ?c1 = Some (deps1 ?c1)" by (simp add: m1)
    have l1': "last1 ?c2 = Some (deps1 ?c2)" by (simp add: m2)
    have y2: "selectedYear ?c2 = selectedYear ?c1" by (rule commit_keeps_year[OF l1])
    have y3: "selectedYear ?c3 = selectedYear ?c2" by (rule commit_keeps_year[OF l1'])
    have l2: "last2 ?c2 = Some (deps2 ?c2)"
      by (simp add: m2 deps2_def y2)
    have d3: "filteredData ?c3 = filteredData ?c2" "keys ?c3 = keys ?c2"
      by (rule commit_keeps_data[OF l2])+
    have "last1 ?c3 = Some (deps1 ?c3)" by (simp add: m3)
    moreover have "last2 ?c3 = Some (deps2 ?c3)"
      by (simp add: m3 deps2_def y3)
    moreover have "last3 ?c3 = Some (deps3 ?c3)" by (simp add: m3 deps3_def d3)
    ultimately show ?thesis
      using commit_quiet[OF m3(1) v3 _ _ _ commit_mounted[OF m2(1) v2]] by simp
  qed
qed

lemma settle_fixpoint: "commit (settle 3 st) = settle 3 st"
  by (simp only: settle_3 commit_fixpoint)

section \<open>Invariants of the reachable states\<close>

lemma run_Nil [simp]: "run st [] = st"
  by (simp add: run_def)

lemma run_snoc [simp]: "run st (evs @ [ev]) = dispatch ev (run st evs)"
  by (simp add: run_def)

lemma run_Cons: "run st (ev # evs) = run (dispatch ev st) evs"
  by (simp add: run_def)

lemma settled_dispatch: "settled (dispatch ev st)"
  by (simp add: settled_def dispatch_def settle_fixpoint)

lemma settled_mount: "settled (mount d l e)"
  by (simp add: settled_def mount_def settle_fixpoint)

lemma settled_run: "settled (run (mount d l e) evs)"
  by (induction evs rule: rev_induct) (simp_all add: settled_mount settled_dispatch)

lemma settled_marks:
  assumes "settled st" "\<not> crashed st" "view_of st = Inr v"
  shows "last1 st = Some (deps1 st)" "last2 st = Some (deps2 st)" "last3 st = Some (deps3 st)"
    "mount_chart v (chart st) = chart st"
  using commit_marks[OF assms(2,3)] commit_mounted[OF assms(2,3)] assms(1)
  by (simp_all add: settled_def)

lemma settled_commit: "settled st \<Longrightarrow> commit (commit (commit st)) = st"
  by (simp add: settled_def)

text \<open>References allocated by the component are always below \<open>fresh\<close>.\<close>

lemma effect2_fresh: "fresh a \<le> fresh (effect2 s a)"
  by (simp add: effect2_def split: option.splits prod.splits)

lemma run_effects_fresh: "fresh a \<le> fresh (run_effects s a)"
  using effect2_fresh[of "effect1 s a" s] effect2_fresh[of a s]
  by (simp add: run_effects_def Let_def)

lemma commit_fresh: "fresh st \<le> fresh (commit st)"
  using run_effects_fresh[of "st\<lparr>chart := c\<rparr>" st for c]
  by (simp add: commit_def split: sum.splits)

lemma ref_lt_mono: "ref_lt n r \<Longrightarrow> n \<le> m \<Longrightarrow> ref_lt m r"
  by (cases r) auto

lemma refs_ok_commit: "refs_ok st \<Longrightarrow> refs_ok (commit st)"
  using commit_fresh[of st] by (auto simp: refs_ok_def intro: ref_lt_mono)

lemma refs_ok_handle: "refs_ok st \<Longrightarrow> refs_ok (handle ev st)"
  by (cases ev) (auto simp: refs_ok_def intro: ref_lt_mono)

lemma refs_ok_dispatch: "refs_ok st \<Longrightarrow> refs_ok (dispatch ev st)"
  by (simp add: dispatch_def settle_3 refs_ok_commit refs_ok_handle)

lemma refs_ok_mount: "refs_ok (mount d l e)"
proof -
  have "refs_ok (init_state d l e)" by (simp add: refs_ok_def init_state_def)
  then show ?thesis by (simp add: mount_def settle_3 refs_ok_commit)
qed

lemma refs_ok_run: "refs_ok (run (mount d l e) evs)"
  by (induction evs rule: rev_induct) (simp_all add: refs_ok_mount refs_ok_dispatch)

lemma view_of_cong:
  "medalsData a = medalsData b \<Longrightarrow> isLoading a = isLoading b \<Longrightarrow> isError a = isError b \<Longrightarrow>
   view_of a = view_of b"
  by (simp add: view_of_def)

text \<open>A staged edit in a settled state changes the staged selection and nothing else.\<close>

lemma staged_quiet:
  assumes "settled st"
  shows "dispatch (StagedChange cs) st =
         (if controls_shown st then st\<lparr>selectedCountries := (LocalRef (fresh st), cs), fresh := fresh st + 1\<rparr> else st)"
proof (cases "controls_shown st")
  case False
  then show ?thesis using assms by (simp add: dispatch_def settle_3 settled_def)
next
  case True
  let ?h = "st\<lparr>selectedCountries := (LocalRef (fresh st), cs), fresh := fresh st + 1\<rparr>"
  from True have nc: "\<not> crashed st" and v: "view_of st = Inr ChartPage"
    by (simp_all add: controls_shown_def)
  note m = settled_marks[OF assms nc v]
  have "commit ?h = ?h"
  proof (rule commit_quiet)
    show "\<not> crashed ?h" using nc by simp
    show "view_of ?h = Inr ChartPage" using v by (simp cong: view_of_cong)
    show "last1 ?h = Some (deps1 ?h)" using m(1) by (simp add: deps1_def)
    show "last2 ?h = Some (deps2 ?h)" using m(2) by (simp add: deps2_def deps1_def)
    show "last3 ?h = Some (deps3 ?h)" using m(3) by (simp add: deps3_def)
    show "mount_chart ChartPage (chart ?h) = chart ?h" using m(4) by simp
  qed
  then show ?thesis using True by (simp add: dispatch_def settle_3)
qed

lemma staged_edits_frame:
  assumes "settled st"
  shows "settled (run st (map StagedChange edits)) \<and>
         appliedCountries (run st (map StagedChange edits)) = appliedCountries st \<and>
         filteredData (run st (map StagedChange edits)) = filteredData st \<and>
         keys (run st (map StagedChange edits)) = keys st \<and>
         chart (run st (map StagedChange edits)) = chart st \<and>
         n_transform (run st (map StagedChange edits)) = n_transform st \<and>
         n_render (run st (map StagedChange edits)) = n_render st"
proof (induction edits rule: rev_induct)
  case Nil
  then show ?case using assms by simp
next
  case (snoc cs edits)
  let ?s = "run st (map StagedChange edits)"
  have "settled (dispatch (StagedChange cs) ?s)" by (rule settled_dispatch)
  moreover from snoc have "settled ?s" by simp
  ultimately show ?case using snoc by (simp add: staged_quiet[of ?s cs])
qed

text \<open>A change of year in a settled state runs the transformer with no country filter.\<close>

lemma commit_transforms:
  assumes "\<not> crashed st" "view_of st = Inr v" "last2 st \<noteq> Some (deps2 st)"
    "medalsData st = Some (r, medals)" "selectedYear st = Some y" "y \<noteq> 0"
  shows "snd (filteredData (commit st)) = transform medals y (snd (appliedCountries st))"
  using assms by (simp add: commit_def run_effects_def Let_def effect2_def)

lemma commit_chain_keeps_data:
  assumes nc: "\<not> crashed st" and v: "view_of st = Inr v" and l1: "last1 st = Some (deps1 st)"
  shows "filteredData (commit (commit (commit st))) = filteredData (commit st)"
    and "n_transform (commit (commit (commit st))) = n_transform (commit st)"
proof -
  let ?c1 = "commit st" and ?c2 = "commit (commit st)"
  note m1 = commit_marks[OF nc v]
  have v1: "view_of ?c1 = Inr v" by (simp add: v)
  note m2 = commit_marks[OF m1(1) v1]
  have y1: "selectedYear ?c1 = selectedYear st" by (rule commit_keeps_year[OF l1])
  have l2: "last2 ?c1 = Some (deps2 ?c1)" by (simp add: m1 deps2_def y1)
  have l1': "last1 ?c1 = Some (deps1 ?c1)" by (simp add: m1)
  have y2: "selectedYear ?c2 = selectedYear ?c1" by (rule commit_keeps_year[OF l1'])
  have l2': "last2 ?c2 = Some (deps2 ?c2)" by (simp add: m2 deps2_def y2)
  show "filteredData (commit (commit (commit st))) = filteredData (commit st)"
    by (simp add: commit_keeps_data(1)[OF l2'] commit_keeps_data(1)[OF l2])
  show "n_transform (commit (commit (commit st))) = n_transform (commit st)"
    by (simp add: commit_keeps_data(4)[OF l2'] commit_keeps_data(4)[OF l2])
qed

lemma ref_lt_fresh: "ref_lt n r \<Longrightarrow> r \<noteq> LocalRef n"
  by (cases r) auto

lemma year_change_settled:
  assumes s: "settled st" and ok: "refs_ok st" and shown: "controls_shown st"
    and md: "medalsData st = Some (r, medals)"
  shows "snd (appliedCountries (dispatch (YearChange y) st)) = []"
    and "selectedYear (dispatch (YearChange y) st) = Some y"
    and "y \<noteq> 0 \<Longrightarrow> snd (filteredData (dispatch (YearChange y) st)) = transform medals y []"
proof -
  let ?h = "st\<lparr>selectedYear := Some y, appliedCountries := (LocalRef (fresh st), []),
              fresh := fresh st + 1\<rparr>"
  from shown have nc: "\<not> crashed st" and v: "view_of st = Inr ChartPage"
    by (simp_all add: controls_shown_def)
  note m = settled_marks[OF s nc v]
  have h: "handle (YearChange y) st = ?h" using shown by simp
  have nch: "\<not> crashed ?h" using nc by simp
  have vh: "view_of ?h = Inr ChartPage" using v by (simp cong: view_of_cong)
  have l1: "last1 ?h = Some (deps1 ?h)" using m(1) by (simp add: deps1_def)
  have "fst (appliedCountries st) \<noteq> LocalRef (fresh st)"
    using ok by (simp add: refs_ok_def ref_lt_fresh)
  then have l2: "last2 ?h \<noteq> Some (deps2 ?h)" using m(2) by (simp add: deps2_def)
  show "snd (appliedCountries (dispatch (YearChange y) st)) = []"
    by (simp add: dispatch_def settle_3 shown)
  have "selectedYear (commit (commit (commit ?h))) = selectedYear ?h"
    using commit_marks[OF nch vh] commit_marks[OF commit_marks(1)[OF nch vh], of ChartPage] vh l1
    by (simp add: commit_keeps_year)
  then show "selectedYear (dispatch (YearChange y) st) = Some y"
    by (simp add: dispatch_def settle_3 shown)
  assume "y \<noteq> 0"
  then have "snd (filteredData (commit ?h)) = transform medals y []"
    using commit_transforms[OF nch vh l2, of r medals y] md by simp
  then show "snd (filteredData (dispatch (YearChange y) st)) = transform medals y []"
    using commit_chain_keeps_data(1)[OF nch vh l1] by (simp add: dispatch_def settle_3 shown)
qed

section \<open>Loading and error results\<close>

lemma view_of_message:
  "l \<or> e \<Longrightarrow> view_of (st\<lparr>medalsData := d, isLoading := l, isError := e\<rparr>) = Inr (Message (line_message l))"
  by (auto simp: view_of_def line_message_def)

lemma commit_message_chart:
  "\<not> crashed st \<Longrightarrow> view_of st = Inr (Message m) \<Longrightarrow> chart (commit st) = None"
  by (simp add: commit_def run_effects_mounted mount_chart_def)

lemma commit3_message:
  assumes "\<not> crashed st" "view_of st = Inr (Message m)"
  shows "chart (commit (commit (commit st))) = None"
proof -
  note m1 = commit_marks(1)[OF assms]
  have v1: "view_of (commit st) = Inr (Message m)" by (simp add: assms)
  note m2 = commit_marks(1)[OF m1 v1]
  have v2: "view_of (commit (commit st)) = Inr (Message m)" by (simp add: assms)
  show ?thesis by (rule commit_message_chart[OF m2 v2])
qed

lemma commit_idle:
  assumes "idle st"
  shows "idle (commit st)" "n_transform (commit st) = n_transform st" "n_render (commit st) = n_render st"
proof -
  from assms have md: "medalsData st = None" by (simp add: idle_def)
  have e2: "effect2 st a = a" for a by (simp add: effect2_def md)
  have e1: "effect1 st a = a" for a by (simp add: effect1_def md)
  have e3: "effect3 st a = a" if "last3 st \<noteq> Some (deps3 st)" for a
    using that assms by (simp add: effect3_def idle_def)
  have fd: "filteredData (commit st) = filteredData st" "keys (commit st) = keys st"
    by (simp_all add: commit_def run_effects_def Let_def e1 e2 split: sum.splits)
  show "n_transform (commit st) = n_transform st"
    by (simp add: commit_def run_effects_def Let_def e1 e2 split: sum.splits)
  show "n_render (commit st) = n_render st"
    using e3 by (simp add: commit_def run_effects_def Let_def e1 e2 split: sum.splits)
  have "last3 (commit st) = Some (deps3 (commit st)) \<or> snd (filteredData (commit st)) = []"
  proof (cases "crashed st")
    case True
    then show ?thesis using assms by (simp add: commit_crashed idle_def)
  next
    case False
    show ?thesis
    proof (cases "view_of st")
      case (Inl err)
      then have "commit st = st\<lparr>chart := None, crashed := True\<rparr>" using False by (simp add: commit_def)
      then show ?thesis using assms by (simp add: idle_def deps3_def)
    next
      case (Inr v)
      then show ?thesis using commit_marks(4)[OF False Inr] by (simp add: deps3_def fd)
    qed
  qed
  then show "idle (commit st)" using md by (simp add: idle_def)
qed

lemma commit3_idle:
  assumes "idle st"
  shows "n_transform (commit (commit (commit st))) = n_transform st"
    and "n_render (commit (commit (commit st))) = n_render st"
  using commit_idle[OF assms] commit_idle[OF commit_idle(1)[OF assms]]
    commit_idle[OF commit_idle(1)[OF commit_idle(1)[OF assms]]]
  by simp_all

lemma settled_view:
  assumes "settled st" "\<not> crashed st"
  obtains v where "view_of st = Inr v"
proof (cases "view_of st")
  case (Inl err)
  then have "crashed (commit st)" using assms(2) by (simp add: commit_throw)
  then show ?thesis using assms by (simp add: settled_def)
next
  case (Inr v)
  then show ?thesis by (rule that)
qed

lemma query_no_data:
  assumes "settled st"
  shows "n_transform (dispatch (Query None l e) st) = n_transform st"
    and "n_render (dispatch (Query None l e) st) = n_render st"
proof -
  let ?h = "st\<lparr>medalsData := None, isLoading := l, isError := e\<rparr>"
  have "n_transform (commit (commit (commit ?h))) = n_transform st \<and>
        n_render (commit (commit (commit ?h))) = n_render st"
  proof (cases "crashed st")
    case True
    then have "commit ?h = ?h" by (simp add: commit_crashed)
    then show ?thesis by simp
  next
    case False
    from settled_view[OF assms False] obtain v where v: "view_of st = Inr v" .
    have "last3 st = Some (deps3 st)" by (rule settled_marks(3)[OF assms False v])
    then have "idle ?h" by (simp add: idle_def deps3_def)
    from commit3_idle[OF this] show ?thesis by simp
  qed
  then show "n_transform (dispatch (Query None l e) st) = n_transform st"
    and "n_render (dispatch (Query None l e) st) = n_render st"
    by (simp_all add: dispatch_def settle_3)
qed

lemma query_message:
  assumes "l \<or> e" "\<not> crashed st"
  shows "view_of (dispatch (Query d l e) st) = Inr (Message (line_message l))"
    and "chart (dispatch (Query d l e) st) = None"
proof -
  let ?h = "st\<lparr>medalsData := d, isLoading := l, isError := e\<rparr>"
  have v: "view_of ?h = Inr (Message (line_message l))" by (rule view_of_message[OF assms(1)])
  show "view_of (dispatch (Query d l e) st) = Inr (Message (line_message l))"
    using v by (simp add: dispatch_def settle_3)
  have "\<not> crashed ?h" using assms(2) by simp
  from commit3_message[OF this v] show "chart (dispatch (Query d l e) st) = None"
    by (simp add: dispatch_def settle_3)
qed

lemma mount_message:
  assumes "l \<or> e"
  shows "view_of (mount d l e) = Inr (Message (line_message l))"
    and "chart (mount d l e) = None"
    and "d = None \<Longrightarrow> n_transform (mount d l e) = 0 \<and> n_render (mount d l e) = 0"
proof -
  have i: "init_state d l e = (init_state d l e)\<lparr>medalsData := d, isLoading := l, isError := e\<rparr>"
    by (simp add: init_state_def)
  have v: "view_of (init_state d l e) = Inr (Message (line_message l))"
    by (subst i) (rule view_of_message[OF assms])
  show "view_of (mount d l e) = Inr (Message (line_message l))"
    using v by (simp add: mount_def settle_3)
  have "\<not> crashed (init_state d l e)" by (simp add: init_state_def)
  from commit3_message[OF this v] show "chart (mount d l e) = None"
    by (simp add: mount_def settle_3)
  assume "d = None"
  then have "idle (init_state d l e)" by (simp add: idle_def init_state_def)
  from commit3_idle[OF this] show "n_transform (mount d l e) = 0 \<and> n_render (mount d l e) = 0"
    by (simp add: mount_def settle_3 init_state_def)
qed

text \<open>The same for the stream graph.\<close>

lemma stream_message_view:
  "l \<or> e \<Longrightarrow> stream_view (g\<lparr>gdpData := gd, g_isLoading := l, g_isError := e\<rparr>) =
     Inr (Message (stream_message l))"
  by (auto simp: stream_view_def stream_message_def)

lemma stream_effect_unmounted:
  "svgRef g = None \<Longrightarrow> stream_effect g = Inr g' \<Longrightarrow> svgRef g' = None"
  by (auto simp: stream_effect_def split: option.splits sum.splits)

lemma stream_commit_message:
  assumes "stream_view g = Inr (Message m)"
  shows "stream_commit g = Inr g' \<Longrightarrow> svgRef g' = None"
    and "gdpData g = None \<Longrightarrow> stream_commit g = Inr (g\<lparr>svgRef := None\<rparr>)"
proof -
  show "stream_commit g = Inr g' \<Longrightarrow> svgRef g' = None"
    using assms stream_effect_unmounted[of "g\<lparr>svgRef := None\<rparr>" g']
    by (simp add: stream_commit_def mount_chart_def)
  show "gdpData g = None \<Longrightarrow> stream_commit g = Inr (g\<lparr>svgRef := None\<rparr>)"
    using assms by (simp add: stream_commit_def mount_chart_def stream_effect_def)
qed

section \<open>First-seen order of \<open>js_unique\<close>\<close>

lemma first_index_le: "first_index xs a \<le> length xs"
  by (induction xs) auto

lemma first_index_less: "(first_index xs a < length xs) = (a \<in> set xs)"
  by (induction xs) auto

lemma first_index_absent: "a \<notin> set xs \<Longrightarrow> first_index xs a = length xs"
  by (induction xs) auto

lemma nth_first_index: "a \<in> set xs \<Longrightarrow> xs ! first_index xs a = a"
  by (induction xs) auto

lemma first_index_append:
  "first_index (xs @ ys) a = (if a \<in> set xs then first_index xs a else length xs + first_index ys a)"
  by (induction xs) auto

lemma first_index_nth: "distinct xs \<Longrightarrow> i < length xs \<Longrightarrow> first_index xs (xs ! i) = i"
proof (induction xs arbitrary: i)
  case Nil
  then show ?case by simp
next
  case (Cons x xs)
  then show ?case by (cases i) auto
qed

lemma set_from_extends: "\<exists>ys. set_from seen xs = seen @ ys"
proof (induction xs arbitrary: seen)
  case Nil
  then show ?case by simp
next
  case (Cons x xs)
  from Cons[of "if x \<in> set seen then seen else seen @ [x]"] show ?case by auto
qed

lemma set_set_from: "set (set_from seen xs) = set seen \<union> set xs"
  by (induction xs arbitrary: seen) auto

lemma distinct_set_from: "distinct seen \<Longrightarrow> distinct (set_from seen xs)"
  by (induction xs arbitrary: seen) auto

lemma set_js_unique [simp]: "set (js_unique xs) = set xs"
  by (simp add: js_unique_def set_set_from)

lemma distinct_js_unique [simp]: "distinct (js_unique xs)"
  by (simp add: js_unique_def distinct_set_from)

lemma set_from_order:
  assumes "set seen = set pre"
    and "sorted_wrt (\<lambda>a b. first_index pre a < first_index pre b) seen"
  shows "sorted_wrt (\<lambda>a b. first_index (pre @ xs) a < first_index (pre @ xs) b) (set_from seen xs)"
  using assms
proof (induction xs arbitrary: seen pre)
  case Nil
  then show ?case by simp
next
  case (Cons x xs)
  let ?pre = "pre @ [x]"
  let ?seen = "if x \<in> set seen then seen else seen @ [x]"
  have old: "first_index ?pre a = first_index pre a" if "a \<in> set seen" for a
    using that Cons.prems(1) by (simp add: first_index_append)
  have s: "set ?seen = set ?pre" using Cons.prems(1) by auto
  have keep: "sorted_wrt (\<lambda>a b. first_index ?pre a < first_index ?pre b) seen"
    using Cons.prems(2) old by (auto simp: sorted_wrt_iff_nth_less)
  have "sorted_wrt (\<lambda>a b. first_index ?pre a < first_index ?pre b) ?seen"
  proof (cases "x \<in> set seen")
    case True
    then show ?thesis using keep by simp
  next
    case False
    then have "x \<notin> set pre" using Cons.prems(1) by simp
    then have "first_index ?pre x = length pre" by (simp add: first_index_append)
    moreover have "first_index ?pre a < length pre" if "a \<in> set seen" for a
      using that Cons.prems(1) old[OF that] by (simp add: first_index_less)
    ultimately show ?thesis using keep False by (simp add: sorted_wrt_append)
  qed
  from Cons.IH[OF s this] show ?case by simp
qed

lemma js_unique_first_seen:
  "sorted_wrt (\<lambda>a b. first_index xs a < first_index xs b) (js_unique xs)"
  using set_from_order[of "[]" "[]" xs] by (simp add: js_unique_def)

section \<open>Colours of the ordinal scale\<close>

lemma scale_all_colours:
  "scale_all sc ds =
     (map (\<lambda>d. o_range sc ! (first_index (set_from (o_domain sc) ds) d mod length (o_range sc))) ds,
      sc\<lparr>o_domain := set_from (o_domain sc) ds\<rparr>)"
proof (induction ds arbitrary: sc)
  case Nil
  then show ?case by simp
next
  case (Cons d ds)
  show ?case
  proof (cases "d \<in> set (o_domain sc)")
    case True
    obtain ys where ys: "set_from (o_domain sc) ds = o_domain sc @ ys"
      using set_from_extends by blast
    have "first_index (set_from (o_domain sc) ds) d = first_index (o_domain sc) d"
      using True by (simp add: ys first_index_append)
    then show ?thesis using True by (simp add: scale_call_def Cons.IH)
  next
    case False
    obtain ys where ys: "set_from (o_domain sc @ [d]) ds = (o_domain sc @ [d]) @ ys"
      using set_from_extends by blast
    have "first_index (set_from (o_domain sc @ [d]) ds) d = length (o_domain sc)"
      using False by (simp add: ys first_index_append)
    then show ?thesis using False by (simp add: scale_call_def Cons.IH)
  qed
qed

lemma scale_all_known:
  assumes "set ds \<subseteq> set (o_domain sc)"
  shows "scale_all sc ds =
     (map (\<lambda>d. o_range sc ! (first_index (o_domain sc) d mod length (o_range sc))) ds, sc)"
proof -
  have "set_from seen xs = seen" if "set xs \<subseteq> set seen" for seen xs :: "string list"
    using that by (induction xs arbitrary: seen) auto
  then show ?thesis using assms by (simp add: scale_all_colours)
qed

section \<open>Rounding to the nearest double\<close>

lemma binade_up_bounds: "1 \<le> a \<Longrightarrow> 2 powi (binade_up a) \<le> a \<and> a < 2 powi (binade_up a + 1)"
proof (induction a rule: binade_up.induct)
  case (1 a)
  show ?case
  proof (cases "a < 2")
    case True
    then show ?thesis using 1(2) by (simp add: binade_up.simps[of a])
  next
    case False
    then have "1 \<le> a / 2" by simp
    from 1(1)[OF False this] have ih: "2 powi binade_up (a / 2) \<le> a / 2" "a / 2 < 2 powi (binade_up (a / 2) + 1)"
      by simp_all
    have "binade_up a = binade_up (a / 2) + 1" using False by (simp add: binade_up.simps[of a])
    then show ?thesis using ih by (simp add: power_int_add field_simps)
  qed
qed

lemma binade_down_bounds:
  "0 < a \<Longrightarrow> a < 1 \<Longrightarrow> 2 powi (binade_down a) \<le> a \<and> a < 2 powi (binade_down a + 1)"
proof (induction a rule: binade_down.induct)
  case (1 a)
  have eq: "binade_down a = binade_down (a * 2) - 1" using 1(2,3) by (simp add: binade_down.simps[of a])
  show ?case
  proof (cases "a * 2 < 1")
    case True
    have n: "\<not> (a \<le> 0 \<or> 1 \<le> a)" using 1(2,3) by simp
    have "0 < a * 2" using 1(2) by simp
    from 1(1)[OF n this True] have ih: "2 powi binade_down (a * 2) \<le> a * 2" "a * 2 < 2 powi (binade_down (a * 2) + 1)"
      by simp_all
    show ?thesis using ih by (simp add: eq power_int_add power_int_diff field_simps)
  next
    case False
    then have "binade_down (a * 2) = 0" by (simp add: binade_down.simps[of "a * 2"])
    then show ?thesis using False 1(3) by (simp add: eq power_int_minus)
  qed
qed

lemma binade_bounds:
  assumes "x \<noteq> 0"
  shows "2 powi (binade x) \<le> \<bar>x\<bar>" "\<bar>x\<bar> < 2 powi (binade x + 1)"
  using assms binade_up_bounds[of "\<bar>x\<bar>"] binade_down_bounds[of "\<bar>x\<bar>"]
  by (auto simp: binade_def)

lemma rne_bounds: "\<lfloor>q\<rfloor> \<le> rne q" "rne q \<le> \<lfloor>q\<rfloor> + 1"
  by (simp_all add: rne_def Let_def)

lemma rne_of_int [simp]: "rne (of_int n) = n"
  by (simp add: rne_def)

lemma rne_mono:
  assumes "p \<le> q"
  shows "rne p \<le> rne q"
proof (cases "\<lfloor>p\<rfloor> = \<lfloor>q\<rfloor>")
  case False
  then have "\<lfloor>p\<rfloor> < \<lfloor>q\<rfloor>" using floor_mono[OF assms] by simp
  then show ?thesis using rne_bounds(2)[of p] rne_bounds(1)[of q] by linarith
next
  case True
  then have "p - of_int \<lfloor>p\<rfloor> \<le> q - of_int \<lfloor>q\<rfloor>" using assms by simp
  then show ?thesis using True by (auto simp: rne_def Let_def)
qed

lemma rne_minus: "rne (- q) = - rne q"
proof (cases "q = of_int \<lfloor>q\<rfloor>")
  case True
  then have "rne (- q) = rne (of_int (- \<lfloor>q\<rfloor>))" by simp
  also have "\<dots> = - \<lfloor>q\<rfloor>" by (rule rne_of_int)
  also have "\<dots> = - rne (of_int \<lfloor>q\<rfloor>)" by simp
  finally show ?thesis using True by simp
next
  case False
  then have f: "\<lfloor>- q\<rfloor> = - \<lfloor>q\<rfloor> - 1" by (simp add: floor_minus ceiling_altdef)
  have r: "- q - of_int \<lfloor>- q\<rfloor> = 1 - (q - of_int \<lfloor>q\<rfloor>)" by (simp add: f)
  show ?thesis unfolding rne_def Let_def r by (auto simp: f)
qed

lemma binade_unique:
  assumes "x \<noteq> 0" "2 powi k \<le> \<bar>x\<bar>" "\<bar>x\<bar> < 2 powi (k + 1)"
  shows "binade x = k"
proof -
  note b = binade_bounds[OF assms(1)]
  have "(2::real) powi binade x < 2 powi (k + 1)" using b(1) assms(3) by linarith
  then have 1: "binade x < k + 1"
    by (metis power_int_increasing not_le one_le_numeral)
  have "(2::real) powi k < 2 powi (binade x + 1)" using b(2) assms(2) by linarith
  then have 2: "k < binade x + 1"
    by (metis power_int_increasing not_le one_le_numeral)
  from 1 2 show ?thesis by simp
qed

lemma binade_mono:
  assumes "a \<noteq> 0" "\<bar>a\<bar> \<le> \<bar>b\<bar>"
  shows "binade a \<le> binade b"
proof -
  have b0: "b \<noteq> 0" using assms by auto
  have "(2::real) powi binade a < 2 powi (binade b + 1)"
    using binade_bounds(1)[OF assms(1)] binade_bounds(2)[OF b0] assms(2) by linarith
  then have "binade a < binade b + 1"
    by (metis power_int_increasing not_le one_le_numeral)
  then show ?thesis by simp
qed

lemma binade_minus [simp]: "binade (- x) = binade x"
  by (simp add: binade_def)

lemma ulp_exp_minus [simp]: "ulp_exp (- x) = ulp_exp x"
  by (simp add: ulp_exp_def)

lemma double_minus: "double (- x) = - double x"
  by (simp add: double_def rne_minus)

lemma double_zero [simp]: "double 0 = 0"
  by (simp add: double_def)

lemma pow2_pos [simp]: "0 < (2::real) powi e"
  by (simp add: zero_less_power_int)

lemma significand_less:
  assumes "x \<noteq> 0"
  shows "\<bar>x\<bar> / 2 powi ulp_exp x < 2 ^ 53"
proof -
  have "binade x + 1 \<le> ulp_exp x + 53" by (simp add: ulp_exp_def)
  then have "(2::real) powi (binade x + 1) \<le> 2 powi (ulp_exp x + 53)"
    by (intro power_int_increasing) simp_all
  then have "\<bar>x\<bar> < 2 powi (ulp_exp x + 53)" using binade_bounds(2)[OF assms] by linarith
  also have "\<dots> = 2 powi ulp_exp x * 2 ^ 53" by (simp add: power_int_add)
  finally show ?thesis by (simp add: field_simps)
qed

lemma significand_ge:
  assumes "x \<noteq> 0" "- 1074 < ulp_exp x"
  shows "2 ^ 52 \<le> \<bar>x\<bar> / 2 powi ulp_exp x"
proof -
  have "binade x = ulp_exp x + 52" using assms(2) by (simp add: ulp_exp_def max_def split: if_splits)
  then have "2 powi (ulp_exp x + 52) \<le> \<bar>x\<bar>" using binade_bounds(1)[OF assms(1)] by simp
  moreover have "(2::real) powi (ulp_exp x + 52) = 2 powi ulp_exp x * 2 ^ 52" by (simp add: power_int_add)
  ultimately show ?thesis by (simp add: field_simps)
qed

lemma double_pos_le:
  assumes "0 < x"
  shows "double x \<le> 2 powi (ulp_exp x + 53)"
proof -
  have "x / 2 powi ulp_exp x \<le> of_int (2 ^ 53)" using significand_less[of x] assms by simp
  then have "rne (x / 2 powi ulp_exp x) \<le> rne (of_int (2 ^ 53))" by (rule rne_mono)
  then have "rne (x / 2 powi ulp_exp x) \<le> 2 ^ 53" by (simp only: rne_of_int)
  then have "real_of_int (rne (x / 2 powi ulp_exp x)) \<le> real_of_int (2 ^ 53)" by (simp only: of_int_le_iff)
  then have "real_of_int (rne (x / 2 powi ulp_exp x)) \<le> 2 ^ 53" by simp
  then have "double x \<le> 2 ^ 53 * 2 powi ulp_exp x" using assms by (simp add: double_def)
  also have "\<dots> = 2 powi (ulp_exp x + 53)" by (simp add: power_int_add)
  finally show ?thesis .
qed

lemma double_pos_ge:
  assumes "0 < x" "- 1074 < ulp_exp x"
  shows "2 powi (ulp_exp x + 52) \<le> double x"
proof -
  have "of_int (2 ^ 52) \<le> x / 2 powi ulp_exp x" using significand_ge[of x] assms by simp
  then have "rne (of_int (2 ^ 52)) \<le> rne (x / 2 powi ulp_exp x)" by (rule rne_mono)
  then have "2 ^ 52 \<le> rne (x / 2 powi ulp_exp x)" by (simp only: rne_of_int)
  then have "real_of_int (2 ^ 52) \<le> real_of_int (rne (x / 2 powi ulp_exp x))" by (simp only: of_int_le_iff)
  then have "2 ^ 52 \<le> real_of_int (rne (x / 2 powi ulp_exp x))" by simp
  then have "2 ^ 52 * 2 powi ulp_exp x \<le> double x" using assms by (simp add: double_def)
  moreover have "(2::real) powi (ulp_exp x + 52) = 2 ^ 52 * 2 powi ulp_exp x" by (simp add: power_int_add)
  ultimately show ?thesis by simp
qed

lemma double_nonneg:
  assumes "0 \<le> x"
  shows "0 \<le> double x"
proof -
  have "(0::real) \<le> x / 2 powi ulp_exp x" using assms by simp
  then have "rne (of_int 0) \<le> rne (x / 2 powi ulp_exp x)" by (intro rne_mono) simp
  then have "0 \<le> rne (x / 2 powi ulp_exp x)" by (simp only: rne_of_int)
  then show ?thesis by (simp add: double_def)
qed

lemma double_mono_pos:
  assumes "0 < a" "a \<le> b"
  shows "double a \<le> double b"
proof -
  have b: "0 < b" using assms by simp
  have "binade a \<le> binade b" using assms by (intro binade_mono) simp_all
  then have le: "ulp_exp a \<le> ulp_exp b" by (simp add: ulp_exp_def)
  show ?thesis
  proof (cases "ulp_exp a = ulp_exp b")
    case True
    have "a / 2 powi ulp_exp b \<le> b / 2 powi ulp_exp b" using assms(2) by (simp add: divide_right_mono)
    then have "rne (a / 2 powi ulp_exp b) \<le> rne (b / 2 powi ulp_exp b)" by (rule rne_mono)
    then show ?thesis using assms b True by (simp add: double_def)
  next
    case False
    then have lt: "ulp_exp a + 53 \<le> ulp_exp b + 52" using le by simp
    have "- 1074 \<le> ulp_exp a" by (simp add: ulp_exp_def)
    then have "- 1074 < ulp_exp b" using lt by simp
    from double_pos_ge[OF b this] have "2 powi (ulp_exp b + 52) \<le> double b" .
    moreover have "(2::real) powi (ulp_exp a + 53) \<le> 2 powi (ulp_exp b + 52)"
      using lt by (intro power_int_increasing) simp_all
    ultimately show ?thesis using double_pos_le[OF assms(1)] by linarith
  qed
qed

lemma double_mono: "mono double"
proof (rule monoI)
  fix x y :: real assume xy: "x \<le> y"
  consider "0 < x" | "x \<le> 0" "0 \<le> y" | "y < 0" using xy by linarith
  then show "double x \<le> double y"
  proof cases
    case 1
    then show ?thesis using xy by (rule double_mono_pos)
  next
    case 2
    have "0 \<le> double (- x)" using 2(1) by (intro double_nonneg) simp
    then have "double x \<le> 0" by (simp add: double_minus)
    then show ?thesis using double_nonneg[OF 2(2)] by linarith
  next
    case 3
    then have "double (- y) \<le> double (- x)" using xy by (intro double_mono_pos) simp_all
    then show ?thesis by (simp add: double_minus)
  qed
qed

lemma scaled_int:
  fixes P p y :: real
  assumes "y = real_of_int n * P" "P = p * 2 ^ d" "0 < p"
  shows "y / p = of_int (n * 2 ^ d)" "of_int (n * 2 ^ d) * p = y"
  using assms by simp_all

lemma double_repr_pos:
  assumes "0 < n" "n < 2 ^ 53" "- 1074 \<le> e"
  shows "double (of_int n * 2 powi e) = of_int n * 2 powi e"
proof -
  define y where "y = real_of_int n * 2 powi e"
  have y: "0 < y" using assms(1) by (simp add: y_def)
  then have y0: "y \<noteq> 0" by simp
  have "real_of_int n < real_of_int (2 ^ 53)" using assms(2) by (simp only: of_int_less_iff)
  then have "real_of_int n < 2 ^ 53" by simp
  then have "y < 2 ^ 53 * 2 powi e" by (simp add: y_def)
  also have "\<dots> = 2 powi (e + 53)" by (simp add: power_int_add)
  finally have "y < 2 powi (e + 53)" .
  moreover have "2 powi binade y \<le> \<bar>y\<bar>" using y0 by (rule binade_bounds(1))
  ultimately have "(2::real) powi binade y < 2 powi (e + 53)" using y by linarith
  then have "binade y < e + 53" by (metis power_int_increasing not_le one_le_numeral)
  then have le: "ulp_exp y \<le> e" using assms(3) by (simp add: ulp_exp_def)
  define d where "d = nat (e - ulp_exp y)"
  have e: "e = ulp_exp y + int d" using le by (simp add: d_def)
  have "(2::real) powi (ulp_exp y + int d) = 2 powi ulp_exp y * 2 powi (int d)"
    by (simp add: power_int_add)
  then have pw: "(2::real) powi e = 2 powi ulp_exp y * 2 ^ d"
    by (simp only: e[symmetric] power_int_of_nat)
  have pp: "0 < (2::real) powi ulp_exp y" by simp
  have q: "y / 2 powi ulp_exp y = of_int (n * 2 ^ d)"
    by (rule scaled_int(1)[OF y_def pw pp])
  have "rne (y / 2 powi ulp_exp y) = n * 2 ^ d" unfolding q by (rule rne_of_int)
  then have "double y = of_int (n * 2 ^ d) * 2 powi ulp_exp y" using y0 by (simp add: double_def)
  also have "\<dots> = y" by (rule scaled_int(2)[OF y_def pw pp])
  finally show ?thesis by (simp only: y_def)
qed

lemma double_idem: "double (double x) = double x"
proof -
  have pos: "double (double x) = double x" if x: "0 < x" for x
  proof -
    let ?e = "ulp_exp x"
    let ?n = "rne (x / 2 powi ?e)"
    have d: "double x = of_int ?n * 2 powi ?e" using x by (simp add: double_def)
    have e: "- 1074 \<le> ?e" by (simp add: ulp_exp_def)
    have "(0::real) \<le> x / 2 powi ?e" using x by simp
    then have "rne (of_int 0) \<le> ?n" by (intro rne_mono) simp
    then have n0: "0 \<le> ?n" by (simp only: rne_of_int)
    have "x / 2 powi ?e \<le> of_int (2 ^ 53)" using significand_less[of x] x by simp
    then have "?n \<le> rne (of_int (2 ^ 53))" by (rule rne_mono)
    then have n1: "?n \<le> 2 ^ 53" by (simp only: rne_of_int)
    consider "?n = 0" | "0 < ?n" "?n < 2 ^ 53" | "?n = 2 ^ 53" using n0 n1 by linarith
    then show ?thesis
    proof cases
      case 1
      then show ?thesis by (simp add: d)
    next
      case 2
      then show ?thesis unfolding d using e by (rule double_repr_pos)
    next
      case 3
      have "real_of_int ?n * 2 powi ?e = of_int (2 ^ 52) * 2 powi (?e + 1)"
        by (simp add: 3 power_int_add)
      moreover have "double (of_int (2 ^ 52) * 2 powi (?e + 1)) = of_int (2 ^ 52) * 2 powi (?e + 1)"
        using e by (intro double_repr_pos) simp_all
      ultimately show ?thesis by (simp only: d)
    qed
  qed
  consider "0 < x" | "x = 0" | "x < 0" by linarith
  then show ?thesis
  proof cases
    case 1
    then show ?thesis by (rule pos)
  next
    case 2
    then show ?thesis by simp
  next
    case 3
    then have "double (double (- x)) = double (- x)" by (intro pos) simp
    then show ?thesis by (simp add: double_minus)
  qed
qed

text \<open>Small integers and their halves, quarters and eighths are doubles.\<close>

lemma double_numeral:
  "numeral k < (9007199254740992::int) \<Longrightarrow> double (numeral k) = numeral k"
  using double_repr_pos[of "numeral k" 0] by simp

lemma double_one: "double 1 = 1"
  using double_repr_pos[of 1 0] by simp

lemma double_numeral_div:
  assumes "numeral k < (9007199254740992::int)"
  shows "double (numeral k / 2) = numeral k / 2"
    and "double (numeral k / 4) = numeral k / 4"
    and "double (numeral k / 8) = numeral k / 8"
  using double_repr_pos[of "numeral k" "- 1"] double_repr_pos[of "numeral k" "- 2"]
    double_repr_pos[of "numeral k" "- 3"] assms
  by (simp_all add: power_int_minus field_simps)

lemma double_one_div:
  "double (1 / 2) = 1 / 2" "double (1 / 4) = 1 / 4" "double (1 / 8) = 1 / 8"
  using double_repr_pos[of 1 "- 1"] double_repr_pos[of 1 "- 2"] double_repr_pos[of 1 "- 3"]
  by (simp_all add: power_int_minus field_simps)

lemmas double_lits = double_one double_minus double_numeral double_numeral_div double_one_div

lemmas double_eval = double_def ulp_exp_def binade_def binade_up.simps binade_down.simps rne_def

section \<open>The stack: order, layers and bands\<close>

lemma inside_out_loop_mset:
  "mset (inside_out_loop rnd totals rest t b tops bottoms) = mset rest + mset tops + mset bottoms"
  by (induction rnd totals rest t b tops bottoms rule: inside_out_loop.induct) auto

lemma stackOrderInsideOut_perm: "mset (stackOrderInsideOut rnd vals) = mset [0..<length vals]"
  by (simp add: stackOrderInsideOut_def stackOrderAppearance_def inside_out_loop_mset)

lemma perm_upt_facts:
  assumes "mset oz = mset [0..<n]"
  shows "length oz = n" "distinct oz" "set oz = {0..<n}"
proof -
  show "length oz = n" using assms by (metis length_upt mset_eq_length minus_nat.diff_0)
  show "distinct oz" using assms by (metis distinct_upt mset_eq_imp_distinct_iff)
  show "set oz = {0..<n}" using assms by (metis mset_eq_setD set_upt)
qed

lemma stack_up_length [simp]: "length (stack_up rnd base rows) = length rows"
  by (induction rows arbitrary: base) (auto simp: Let_def)

text \<open>The bands of one entry are the values of that entry piled on the baseline.\<close>

lemma stack_up_column:
  assumes "j < length base" "\<forall>r \<in> set rows. j < length r"
  shows "map (\<lambda>layer. layer ! j) (stack_up rnd base rows) = pile rnd (base ! j) (map (\<lambda>r. r ! j) rows)"
  using assms
proof (induction rows arbitrary: base)
  case Nil
  then show ?case by simp
next
  case (Cons row rows)
  let ?band = "map (\<lambda>(b, v). (b, rnd (v + b))) (zip base row)"
  have jr: "j < length row" using Cons.prems(2) by simp
  have b: "?band ! j = (base ! j, rnd (row ! j + base ! j))" using jr Cons.prems(1) by simp
  have "map (\<lambda>layer. layer ! j) (stack_up rnd (map snd ?band) rows) =
          pile rnd (map snd ?band ! j) (map (\<lambda>r. r ! j) rows)"
    using Cons.prems jr by (intro Cons.IH) auto
  moreover have "map snd ?band ! j = rnd (row ! j + base ! j)"
    using jr Cons.prems(1) by simp
  ultimately show ?case using b by (simp add: Let_def)
qed

lemma pile_length [simp]: "length (pile rnd lo vs) = length vs"
  by (induction vs arbitrary: lo) simp_all

lemma pile_hd: "vs \<noteq> [] \<Longrightarrow> fst (hd (pile rnd lo vs)) = lo"
  by (cases vs) simp_all

lemma pile_contiguous: "contiguous (pile rnd lo vs)"
proof (induction vs arbitrary: lo)
  case Nil
  then show ?case by simp
next
  case (Cons v vs)
  show ?case
  proof (cases vs)
    case Nil
    then show ?thesis by simp
  next
    case (Cons w ws)
    then show ?thesis using Cons.IH[of "rnd (v + lo)"] by simp
  qed
qed

lemma pile_upper:
  "map snd (pile rnd lo vs) = map (\<lambda>(b, v). rnd (v + fst b)) (zip (pile rnd lo vs) vs)"
  by (induction vs arbitrary: lo) simp_all

lemma pile_heights:
  "vs \<noteq> [] \<Longrightarrow> sum_list (band_heights (pile rnd lo vs)) = snd (last (pile rnd lo vs)) - lo"
proof (induction vs arbitrary: lo)
  case Nil
  then show ?case by simp
next
  case (Cons v vs)
  show ?case
  proof (cases vs)
    case Nil
    then show ?thesis by (simp add: band_heights_def)
  next
    case (Cons w ws)
    then have "sum_list (band_heights (pile rnd (rnd (v + lo)) vs)) =
               snd (last (pile rnd (rnd (v + lo)) vs)) - rnd (v + lo)"
      using Cons.IH by simp
    then show ?thesis using Cons by (simp add: band_heights_def)
  qed
qed

lemma pile_ordered:
  assumes "mono rnd" "\<forall>x. rnd (rnd x) = rnd x" "rnd lo = lo" "\<forall>v \<in> set vs. 0 \<le> v"
  shows "list_all (\<lambda>(lo, hi). lo \<le> hi) (pile rnd lo vs)"
  using assms(3,4)
proof (induction vs arbitrary: lo)
  case Nil
  then show ?case by simp
next
  case (Cons v vs)
  have "lo \<le> v + lo" using Cons.prems(2) by simp
  with assms(1) have "rnd lo \<le> rnd (v + lo)" by (rule monoD)
  then have "lo \<le> rnd (v + lo)" using Cons.prems(1) by simp
  moreover have "list_all (\<lambda>(lo, hi). lo \<le> hi) (pile rnd (rnd (v + lo)) vs)"
    using Cons.prems(2) assms(2) by (intro Cons.IH) simp_all
  ultimately show ?case by simp
qed

lemma band_bounds_simps [simp]:
  "band_bounds [] = []" "band_bounds ((lo, hi) # bs) = lo # hi # band_bounds bs"
  by (simp_all add: band_bounds_def)

lemma pile_sorted:
  assumes "mono rnd" "\<forall>x. rnd (rnd x) = rnd x" "rnd lo = lo" "\<forall>v \<in> set vs. 0 \<le> v"
  shows "sorted (band_bounds (pile rnd lo vs)) \<and> (\<forall>x \<in> set (band_bounds (pile rnd lo vs)). lo \<le> x)"
  using assms(3,4)
proof (induction vs arbitrary: lo)
  case Nil
  then show ?case by simp
next
  case (Cons v vs)
  let ?rest = "band_bounds (pile rnd (rnd (v + lo)) vs)"
  have "lo \<le> v + lo" using Cons.prems(2) by simp
  with assms(1) have "rnd lo \<le> rnd (v + lo)" by (rule monoD)
  then have le: "lo \<le> rnd (v + lo)" using Cons.prems(1) by simp
  have ih: "sorted ?rest \<and> (\<forall>x \<in> set ?rest. rnd (v + lo) \<le> x)"
    using Cons.prems(2) assms(2) by (intro Cons.IH) simp_all
  then have "\<forall>x \<in> set ?rest. lo \<le> x" using le by fastforce
  then show ?case using le ih by simp
qed

lemma wiggle_base_rounded:
  assumes "\<forall>x. rnd (rnd x) = rnd x" "rnd 0 = 0"
  shows "rnd (wiggle_base rnd rows j) = wiggle_base rnd rows j"
  using assms by (induction j) (simp_all add: Let_def split: prod.splits)

lemma contiguous_nth:
  "(\<And>i. Suc i < length bs \<Longrightarrow> snd (bs ! i) = fst (bs ! Suc i)) \<Longrightarrow> contiguous bs"
proof (induction bs rule: contiguous.induct)
  case (1 a b bs)
  have "snd a = fst b" using "1.prems"[of 0] by simp
  moreover have "contiguous (b # bs)"
  proof (rule "1.IH")
    fix i assume "Suc i < length (b # bs)"
    then show "snd ((b # bs) ! i) = fst ((b # bs) ! Suc i)" using "1.prems"[of "Suc i"] by simp
  qed
  ultimately show ?case by simp
qed simp_all

lemma sorted_keys_upt:
  assumes "mset ks = mset [0..<n]" "sorted ks"
  shows "ks = [0..<n]"
proof -
  have "distinct ks" "set ks = set [0..<n]"
    using perm_upt_facts[OF assms(1)] by simp_all
  then show ?thesis using assms(2) by (intro sorted_distinct_set_unique) simp_all
qed

lemma first_index_perm:
  assumes "mset oz = mset [0..<n]"
  shows "mset (map (first_index oz) [0..<n]) = mset [0..<n]"
proof -
  note f = perm_upt_facts[OF assms]
  have "map (first_index oz) oz = [0..<n]"
    using f by (intro nth_equalityI) (simp_all add: first_index_nth)
  then have "mset (map (first_index oz) oz) = mset [0..<n]" by simp
  moreover have "mset (map (first_index oz) oz) = mset (map (first_index oz) [0..<n])"
    using assms by (metis mset_map)
  ultimately show ?thesis by simp
qed

text \<open>Sorting the series by their index lists them in stacking order.\<close>

lemma sort_by_index:
  assumes oz: "mset oz = mset [0..<n]"
    and idx: "\<And>i. i < n \<Longrightarrow> s_index (mk i) = first_index oz i"
  shows "sort_key s_index (map mk [0..<n]) = map (\<lambda>p. mk (oz ! p)) [0..<n]"
proof -
  note f = perm_upt_facts[OF oz]
  let ?ys = "sort_key s_index (map mk [0..<n])"
  have keys0: "map s_index (map mk [0..<n]) = map (first_index oz) [0..<n]"
    using idx by simp
  have "mset (map s_index ?ys) = mset (map s_index (map mk [0..<n]))"
    by (metis mset_map mset_sort)
  then have "mset (map s_index ?ys) = mset [0..<n]"
    by (simp only: keys0 first_index_perm[OF oz])
  then have keys: "map s_index ?ys = [0..<n]"
    by (rule sorted_keys_upt) (rule sorted_sort_key)
  have len: "length ?ys = n" by simp
  show ?thesis
  proof (rule nth_equalityI)
    show "length ?ys = length (map (\<lambda>p. mk (oz ! p)) [0..<n])" by simp
  next
    fix p assume "p < length ?ys"
    then have p: "p < n" by simp
    have "?ys ! p \<in> set ?ys" using p len by (metis nth_mem)
    then have "?ys ! p \<in> set (map mk [0..<n])" by simp
    then obtain i where i: "i < n" "?ys ! p = mk i" by auto
    have "s_index (?ys ! p) = p" using keys p len by (metis nth_map nth_upt add.left_neutral)
    then have "first_index oz i = p" using i idx by simp
    moreover have "i \<in> set oz" using i f by simp
    ultimately have "oz ! p = i" using nth_first_index by metis
    then show "?ys ! p = map (\<lambda>p. mk (oz ! p)) [0..<n] ! p" using i p by simp
  qed
qed


lemma stack_rows_facts:
  shows "length (stack_rows rnd ks entries) = length ks"
    and "\<forall>r \<in> set (stack_rows rnd ks entries). length r = length entries"
    and "j < length entries \<Longrightarrow>
         mset (values_at rnd ks entries j) = mset (map (stack_value (entries ! j)) ks)"
proof -
  let ?vals = "map (\<lambda>k. map (\<lambda>e. stack_value e k) entries) ks"
  let ?oz = "stackOrderInsideOut rnd ?vals"
  have oz: "mset ?oz = mset [0..<length ks]" using stackOrderInsideOut_perm[of rnd ?vals] by simp
  note f = perm_upt_facts[OF oz]
  show "length (stack_rows rnd ks entries) = length ks" by (simp add: stack_rows_def Let_def f)
  show "\<forall>r \<in> set (stack_rows rnd ks entries). length r = length entries"
    using f by (auto simp: stack_rows_def Let_def)
  assume j: "j < length entries"
  have "values_at rnd ks entries j = map (\<lambda>i. stack_value (entries ! j) (ks ! i)) ?oz"
    using f j by (auto simp: values_at_def stack_rows_def Let_def)
  moreover have "mset (map (\<lambda>i. stack_value (entries ! j) (ks ! i)) ?oz) =
                 mset (map (\<lambda>i. stack_value (entries ! j) (ks ! i)) [0..<length ks])"
    using oz by (metis mset_map)
  moreover have "map (\<lambda>i. stack_value (entries ! j) (ks ! i)) [0..<length ks] =
                 map (stack_value (entries ! j)) ks"
    by (intro nth_equalityI) simp_all
  ultimately show "mset (values_at rnd ks entries j) = mset (map (stack_value (entries ! j)) ks)"
    by simp
qed

lemma bands_at_stack:
  assumes j: "j < length entries"
  shows "bands_at (d3_stack rnd ks entries) j =
           pile rnd (wiggle_base rnd (stack_rows rnd ks entries) j) (values_at rnd ks entries j)"
proof -
  let ?vals = "map (\<lambda>k. map (\<lambda>e. stack_value e k) entries) ks"
  let ?oz = "stackOrderInsideOut rnd ?vals"
  let ?rows = "stack_rows rnd ks entries"
  let ?base = "map (wiggle_base rnd ?rows) [0..<length entries]"
  let ?layers = "stack_up rnd ?base ?rows"
  let ?mk = "\<lambda>i. \<lparr>s_key = ks ! i, s_index = first_index ?oz i,
                   s_points = ?layers ! first_index ?oz i\<rparr>"
  have oz: "mset ?oz = mset [0..<length ks]" using stackOrderInsideOut_perm[of rnd ?vals] by simp
  note f = perm_upt_facts[OF oz]
  note r = stack_rows_facts(1,2)[of rnd ks entries]
  have series: "d3_stack rnd ks entries = map ?mk [0..<length ks]"
    by (simp add: d3_stack_def stack_rows_def Let_def)
  have "sort_key s_index (map ?mk [0..<length ks]) = map (\<lambda>p. ?mk (?oz ! p)) [0..<length ks]"
    by (rule sort_by_index[OF oz]) simp
  then have "bands_at (d3_stack rnd ks entries) j =
             map (\<lambda>p. ?layers ! first_index ?oz (?oz ! p) ! j) [0..<length ks]"
    by (simp add: bands_at_def series comp_def)
  also have "\<dots> = map (\<lambda>p. ?layers ! p ! j) [0..<length ks]"
    using f by (intro map_cong) (simp_all add: first_index_nth)
  also have "\<dots> = map (\<lambda>layer. layer ! j) ?layers"
    using r(1) by (intro nth_equalityI) simp_all
  also have "\<dots> = pile rnd (?base ! j) (map (\<lambda>r. r ! j) ?rows)"
    using j r(2) by (intro stack_up_column) simp_all
  finally show ?thesis using j by (simp add: values_at_def)
qed

lemma stack_bands:
  assumes j: "j < length entries"
  shows "length (bands_at (d3_stack rnd ks entries) j) = length ks"
    and "contiguous (bands_at (d3_stack rnd ks entries) j)"
    and "bands_at (d3_stack rnd ks entries) j \<noteq> [] \<Longrightarrow>
           fst (hd (bands_at (d3_stack rnd ks entries) j)) =
             wiggle_base rnd (stack_rows rnd ks entries) j"
    and "map snd (bands_at (d3_stack rnd ks entries) j) =
           map (\<lambda>(b, v). rnd (v + fst b))
               (zip (bands_at (d3_stack rnd ks entries) j) (values_at rnd ks entries j))"
    and "bands_at (d3_stack rnd ks entries) j \<noteq> [] \<Longrightarrow>
           sum_list (band_heights (bands_at (d3_stack rnd ks entries) j)) =
             snd (last (bands_at (d3_stack rnd ks entries) j)) -
             fst (hd (bands_at (d3_stack rnd ks entries) j))"
    and "mono rnd \<Longrightarrow> \<forall>x. rnd (rnd x) = rnd x \<Longrightarrow> rnd 0 = 0 \<Longrightarrow>
         list_all (\<lambda>k. 0 \<le> stack_value (entries ! j) k) ks \<Longrightarrow>
           list_all (\<lambda>(lo, hi). lo \<le> hi) (bands_at (d3_stack rnd ks entries) j) \<and>
           sorted (band_bounds (bands_at (d3_stack rnd ks entries) j))"
proof -
  note eq = bands_at_stack[OF j, of rnd ks]
  have len: "length (values_at rnd ks entries j) = length ks"
    by (simp add: values_at_def stack_rows_facts(1))
  show "length (bands_at (d3_stack rnd ks entries) j) = length ks" by (simp add: eq len)
  show "contiguous (bands_at (d3_stack rnd ks entries) j)" unfolding eq by (rule pile_contiguous)
  show "fst (hd (bands_at (d3_stack rnd ks entries) j)) = wiggle_base rnd (stack_rows rnd ks entries) j"
    if "bands_at (d3_stack rnd ks entries) j \<noteq> []"
  proof -
    from that have "values_at rnd ks entries j \<noteq> []" unfolding eq by (cases "values_at rnd ks entries j") simp_all
    then show ?thesis unfolding eq by (rule pile_hd)
  qed
  show "map snd (bands_at (d3_stack rnd ks entries) j) =
           map (\<lambda>(b, v). rnd (v + fst b))
               (zip (bands_at (d3_stack rnd ks entries) j) (values_at rnd ks entries j))"
    unfolding eq by (rule pile_upper)
  show "sum_list (band_heights (bands_at (d3_stack rnd ks entries) j)) =
          snd (last (bands_at (d3_stack rnd ks entries) j)) -
          fst (hd (bands_at (d3_stack rnd ks entries) j))"
    if "bands_at (d3_stack rnd ks entries) j \<noteq> []"
  proof -
    from that have ne: "values_at rnd ks entries j \<noteq> []"
      unfolding eq by (cases "values_at rnd ks entries j") simp_all
    show ?thesis unfolding eq by (simp add: pile_heights[OF ne] pile_hd[OF ne])
  qed
  show "list_all (\<lambda>(lo, hi). lo \<le> hi) (bands_at (d3_stack rnd ks entries) j) \<and>
        sorted (band_bounds (bands_at (d3_stack rnd ks entries) j))"
    if m: "mono rnd" and i: "\<forall>x. rnd (rnd x) = rnd x" and z: "rnd 0 = 0"
      and nn: "list_all (\<lambda>k. 0 \<le> stack_value (entries ! j) k) ks"
  proof -
    have "set (values_at rnd ks entries j) = set (map (stack_value (entries ! j)) ks)"
      using stack_rows_facts(3)[OF j, of rnd ks] by (rule mset_eq_setD)
    then have "\<forall>v \<in> set (values_at rnd ks entries j). 0 \<le> v"
      using nn by (auto simp: list_all_iff)
    with m i wiggle_base_rounded[OF i z] show ?thesis
      unfolding eq by (intro conjI pile_ordered conjunct1[OF pile_sorted])
  qed
qed

section \<open>Colours and legends of the drawings\<close>

lemma set_from_known: "set xs \<subseteq> set seen \<Longrightarrow> set_from seen xs = seen"
  by (induction xs arbitrary: seen) auto

lemma legend_names_set: "set (legend_names ns) = set ns"
proof
  show "set (legend_names ns) \<subseteq> set ns"
  proof
    fix v assume "v \<in> set (legend_names ns)"
    then obtain i where "(i, v) \<in> set (enumerate 0 ns)" by (auto simp: legend_names_def)
    then show "v \<in> set ns" by (auto simp: in_set_enumerate_eq)
  qed
  show "set ns \<subseteq> set (legend_names ns)"
  proof
    fix v assume v: "v \<in> set ns"
    then have "(first_index ns v, v) \<in> set (enumerate 0 ns)"
      by (simp add: in_set_enumerate_eq first_index_less nth_first_index)
    then have "(first_index ns v, v) \<in> set (filter (\<lambda>(i, v). first_index ns v = i) (enumerate 0 ns))"
      by simp
    then show "v \<in> set (legend_names ns)"
      unfolding legend_names_def by (metis image_eqI set_map snd_conv)
  qed
qed

lemma set_draw_order: "set (draw_order fd) = set (map name fd)"
  by (simp add: draw_order_def)

lemma draw_line_chart_colours:
  "map fst (paths (draw_line_chart fd ks)) =
     map (colour_at schemeCategory10 (draw_order fd)) (draw_order fd)"
  "legend (draw_line_chart fd ks) =
     map (\<lambda>c. (c, colour_at schemeCategory10 (draw_order fd) c)) (legend_names (map name fd))"
proof -
  let ?sc1 = "(scaleOrdinal schemeCategory10)\<lparr>o_domain := js_unique (draw_order fd)\<rparr>"
  have a: "scale_all (scaleOrdinal schemeCategory10) (draw_order fd) =
           (map (colour_at schemeCategory10 (draw_order fd)) (draw_order fd), ?sc1)"
    by (simp add: scale_all_colours scaleOrdinal_def js_unique_def colour_at_def)
  have "set (legend_names (map name fd)) \<subseteq> set (o_domain ?sc1)"
    by (simp add: legend_names_set set_draw_order)
  from scale_all_known[OF this]
  have b: "scale_all ?sc1 (legend_names (map name fd)) =
           (map (colour_at schemeCategory10 (draw_order fd)) (legend_names (map name fd)), ?sc1)"
    by (simp add: scaleOrdinal_def colour_at_def)
  show "map fst (paths (draw_line_chart fd ks)) =
          map (colour_at schemeCategory10 (draw_order fd)) (draw_order fd)"
    by (simp add: draw_line_chart_def a b Let_def)
  show "legend (draw_line_chart fd ks) =
     map (\<lambda>c. (c, colour_at schemeCategory10 (draw_order fd) c)) (legend_names (map name fd))"
    by (simp add: draw_line_chart_def a b Let_def zip_map2 zip_same_conv_map)
qed

lemma map_of_legend:
  "map_of (map (\<lambda>c. (c, f c)) ns) c = (if c \<in> set ns then Some (f c) else None)"
  by (induction ns) auto

lemma d3_stack_keys: "map s_key (d3_stack rnd ks entries) = ks"
  by (simp add: d3_stack_def Let_def comp_def map_nth)

lemma draw_stream_colours:
  assumes "draw_stream gdp selected = Inr svg"
  defines "ks \<equiv> stream_countries selected (map parse_row gdp)"
  shows "map fst (areas svg) = map (colour_at schemeTableau10 ks) ks"
    and "map (fst \<circ> snd) (areas svg) = ks"
    and "s_legend svg = map (\<lambda>c. (c, colour_at schemeTableau10 ks c)) ks"
proof -
  obtain idx where idx: "d3_index (map parse_row gdp) = Inr idx"
    using assms(1) by (cases "d3_index (map parse_row gdp)") (simp_all add: draw_stream_def)
  let ?sc = "set_domain (scaleOrdinal schemeTableau10) ks"
  have k: "scale_all ?sc ks = (map (colour_at schemeTableau10 ks) ks, ?sc)"
    using scale_all_known[of ks ?sc]
    by (simp add: set_domain_def scaleOrdinal_def colour_at_def)
  have svg: "svg = \<lparr>areas = zip (map (colour_at schemeTableau10 ks) ks)
                               (zip ks (map s_points (d3_stack double ks idx))),
                     s_legend = zip ks (map (colour_at schemeTableau10 ks) ks),
                     domain_y = y_domain (d3_stack double ks idx)\<rparr>"
    using assms(1) by (simp add: draw_stream_def idx d3_stack_keys k ks_def[symmetric] Let_def)
  have len: "length (d3_stack double ks idx) = length ks" by (simp add: d3_stack_def Let_def)
  show "map fst (areas svg) = map (colour_at schemeTableau10 ks) ks"
    by (simp add: svg len)
  have "map snd (areas svg) = zip ks (map s_points (d3_stack double ks idx))"
    by (simp add: svg len)
  then have "map fst (map snd (areas svg)) = ks" by (simp add: len)
  then show "map (fst \<circ> snd) (areas svg) = ks" by simp
  show "s_legend svg = map (\<lambda>c. (c, colour_at schemeTableau10 ks c)) ks"
    by (simp add: svg zip_map2 zip_same_conv_map)
qed

lemma draw_stream_returns:
  "d3_index (map parse_row gdp) = Inr entries \<Longrightarrow> \<exists>svg. draw_stream gdp selected = Inr svg"
  by (simp add: draw_stream_def Let_def split: prod.splits)

lemma stream_commit_draws:
  assumes "gdpData g = Some gdp" "\<not> g_isLoading g" "\<not> g_isError g"
  shows "stream_commit g =
           (case draw_stream gdp (g_selectedCountries g) of
              Inl e \<Rightarrow> Inl e
            | Inr svg \<Rightarrow> Inr (g\<lparr>svgRef := Some [svg], g_runs := g_runs g + 1\<rparr>))"
  using assms
  by (simp add: stream_commit_def stream_view_def mount_chart_def stream_effect_def
      split: option.splits sum.splits)

lemma country_parse: "map country (map parse_row gdp) = map gdp_Country gdp"
  by (simp add: parse_row_def comp_def)

section \<open>The example session, step by step\<close>

lemmas line_eval = init_state_def commit_def view_of_def run_effects_def
     deps1_def deps2_def deps3_def effect1_def effect2_def effect3_def controls_shown_def mount_chart_def
     years_desc_def js_unique_def transform_def to_point_def uniqueKeys_def draw_line_chart_def
     draw_order_def legend_names_def scaleOrdinal_def scale_call_def schemeCategory10_def
     mount_def dispatch_def settle_3 Let_def

lemmas example_defs = usa21_def chn21_def usa16_def gbr16_def feed_def chart21_def chart_chn_def
     chart16_def s_mounted_def s_staged_def s_applied_def s_year_def s_stale_def

lemma step_mount: "mount (Some (QueryRef 0, feed)) False False = s_mounted"
  by (simp add: line_eval example_defs)

lemma step_stage: "dispatch (StagedChange [''CHN'']) s_mounted = s_staged"
  by (simp add: line_eval example_defs)

lemma step_apply: "dispatch Apply s_staged = s_applied"
  by (simp add: line_eval example_defs)

lemma step_year: "dispatch (YearChange 2016) s_applied = s_year"
  by (simp add: line_eval example_defs)

lemma step_stale: "dispatch Apply s_year = s_stale"
  by (simp add: line_eval example_defs)

text \<open>The two example stacks.\<close>

lemmas stream_eval = gdp_point_def parse_row_def date_year_def d3_index_def d3_group_def js_unique_def
    stream_countries_def d3_stack_def stack_value_def stackOrderInsideOut_def stackOrderAppearance_def
    series_sum_def peak_def y_domain_def bands_at_def double_lits Let_def


lemma rising_index_eq: "d3_index (map parse_row rising_feed) = Inr rising_index"
  by (simp add: stream_eval rising_feed_def rising_index_def)

lemma pair_index_eq: "d3_index (map parse_row pair_feed) = Inr pair_index"
  by (simp add: stream_eval pair_feed_def pair_index_def)

lemma rising_countries: "stream_countries [] (map parse_row rising_feed) = [''A'']"
  by (simp add: stream_eval rising_feed_def)

lemma pair_countries: "stream_countries [] (map parse_row pair_feed) = [''A'', ''B'']"
  by (simp add: stream_eval pair_feed_def)

lemma rising_bands: "bands_at (d3_stack double [''A''] rising_index) 0 = [(0, 1)]"
  by (simp add: stream_eval rising_index_def)

lemma rising_domain: "y_domain (d3_stack double [''A''] rising_index) = Some (-1, 2)"
  by (simp add: stream_eval rising_index_def)

lemma pair_values: "values_at double [''A'', ''B''] pair_index (Suc 0) = [1, 3]"
  by (simp add: values_at_def stack_rows_def stream_eval pair_index_def)

lemma signed_index_eq: "d3_index (map parse_row signed_feed) = Inr signed_index"
  by (simp add: stream_eval signed_feed_def signed_index_def)

lemma signed_countries: "stream_countries [] (map parse_row signed_feed) = [''A'', ''B'']"
  by (simp add: stream_eval signed_feed_def)

lemma signed_bands: "bands_at (d3_stack double [''A'', ''B''] signed_index) 0 = [(0, 2), (2, 1)]"
  by (simp add: stream_eval signed_index_def)

lemma tenths_index_eq: "d3_index (map parse_row tenths_feed) = Inr tenths_index"
  by (simp add: stream_eval tenths_feed_def tenths_index_def tenth_def two_tenths_def three_tenths_def)

lemma tenths_countries: "stream_countries [] (map parse_row tenths_feed) = [''A'', ''B'', ''C'']"
  by (simp add: stream_eval tenths_feed_def)

lemma tenths_sums:
  "double (3602879701896397 / 36028797018963968) = 3602879701896397 / 36028797018963968"
  "double (3602879701896397 / 18014398509481984) = 3602879701896397 / 18014398509481984"
  "double (5404319552844595 / 18014398509481984) = 5404319552844595 / 18014398509481984"
  "double (14411518807585587 / 36028797018963968) = 3602879701896397 / 9007199254740992"
  "double (10808639105689191 / 18014398509481984) = 1351079888211149 / 2251799813685248"
  by (simp_all add: double_eval Let_def)

lemma tenths_bands:
  "bands_at (d3_stack double [''A'', ''B'', ''C''] tenths_index) 0 =
     [(0, three_tenths), (three_tenths, 3602879701896397 / 9007199254740992),
      (3602879701896397 / 9007199254740992, 1351079888211149 / 2251799813685248)]"
  by (simp add: stream_eval tenths_index_def tenth_def two_tenths_def three_tenths_def tenths_sums)

lemma tenths_heights:
  "band_heights (bands_at (d3_stack double [''A'', ''B'', ''C''] tenths_index) 0) =
     [three_tenths, 1801439850948199 / 18014398509481984, 1801439850948199 / 9007199254740992] \<and>
   map (stack_value (tenths_index ! 0)) [''C'', ''A'', ''B''] = [three_tenths, tenth, two_tenths] \<and>
   1801439850948199 / 18014398509481984 \<noteq> tenth \<and>
   1801439850948199 / 9007199254740992 \<noteq> two_tenths"
  by (simp add: tenths_bands band_heights_def)
     (simp add: stack_value_def tenths_index_def tenth_def two_tenths_def three_tenths_def)

lemma pair_bands: "bands_at (d3_stack double [''A'', ''B''] pair_index) (Suc 0) = [(1/8, 9/8), (9/8, 33/8)]"
  by (simp add: stream_eval pair_index_def)




text \<open>Applying, and what a sequence of staged edits leaves in the staged selection.\<close>

lemma apply_commits:
  "controls_shown st \<Longrightarrow> appliedCountries (dispatch Apply st) = selectedCountries st"
  by (simp add: dispatch_def settle_3)

lemma controls_shown_cong:
  "medalsData a = medalsData b \<Longrightarrow> isLoading a = isLoading b \<Longrightarrow> isError a = isError b \<Longrightarrow>
   crashed a = crashed b \<Longrightarrow> controls_shown a = controls_shown b"
  by (simp add: controls_shown_def view_of_def)

lemma staged_edits_selection:
  assumes "settled st" "controls_shown st"
  shows "controls_shown (run st (map StagedChange edits)) \<and>
         (edits \<noteq> [] \<longrightarrow> snd (selectedCountries (run st (map StagedChange edits))) = last edits)"
proof (induction edits rule: rev_induct)
  case Nil
  then show ?case using assms by simp
next
  case (snoc cs edits)
  let ?s = "run st (map StagedChange edits)"
  have s: "settled ?s" using staged_edits_frame[OF assms(1), of edits] by simp
  have c: "controls_shown ?s" using snoc by simp
  have "dispatch (StagedChange cs) ?s =
        ?s\<lparr>selectedCountries := (LocalRef (fresh ?s), cs), fresh := fresh ?s + 1\<rparr>"
    using staged_quiet[OF s, of cs] c by simp
  then show ?case using c by (simp cong: controls_shown_cong)
qed

text \<open>The example session as a whole, and the example drawings.\<close>

lemma example_run:
  "run (mount (Some (QueryRef 0, feed)) False False)
       [StagedChange [''CHN''], Apply, YearChange 2016, Apply] = s_stale"
  by (simp add: run_def step_mount step_stage step_apply step_year step_stale)

lemma example_applied:
  "run (mount (Some (QueryRef 0, feed)) False False) [StagedChange [''CHN''], Apply] = s_applied"
  by (simp add: run_def step_mount step_stage step_apply)

lemmas draw_eval = draw_stream_def set_domain_def scaleOrdinal_def scale_call_def schemeTableau10_def

lemma eleven_legend:
  "map_sum id (\<lambda>svg. map fst (s_legend svg)) (draw_stream eleven_feed []) =
     Inr [''USA'', ''CHN'', ''JPN'', ''DEU'', ''IND'', ''GBR'', ''FRA'', ''ITA'', ''BRA'', ''CAN'']"
  by (simp add: stream_eval draw_eval eleven_feed_def)

lemma pair_svg:
  "draw_stream pair_feed [] =
     Inr \<lparr>areas = [(''#4e79a7'', ''A'', [(2, 3), (9 / 8, 33 / 8)]),
                   (''#f28e2c'', ''B'', [(0, 2), (1 / 8, 9 / 8)])],
          s_legend = [(''A'', ''#4e79a7''), (''B'', ''#f28e2c'')],
          domain_y = Some (0, 33 / 8)\<rparr>"
  by (simp add: stream_eval draw_eval pair_feed_def)

lemma other_pair_svg:
  "draw_stream other_pair_feed [] =
     Inr \<lparr>areas = [(''#4e79a7'', ''A'', [(0, 7)]), (''#f28e2c'', ''B'', [(7, 16)])],
          s_legend = [(''A'', ''#4e79a7''), (''B'', ''#f28e2c'')],
          domain_y = Some (0, 16)\<rparr>"
  by (simp add: stream_eval draw_eval other_pair_feed_def)


lemma eleven_countries:
  "stream_countries [] (map parse_row eleven_feed) =
     [''USA'', ''CHN'', ''JPN'', ''DEU'', ''IND'', ''GBR'', ''FRA'', ''ITA'', ''BRA'', ''CAN'']"
  by (simp add: stream_eval eleven_feed_def)

lemma eleven_all:
  "js_unique (map gdp_Country eleven_feed) =
     [''USA'', ''CHN'', ''JPN'', ''DEU'', ''IND'', ''GBR'', ''FRA'', ''ITA'', ''BRA'', ''CAN'', ''KOR'']"
  by (simp add: js_unique_def gdp_point_def eleven_feed_def)

lemma other_pair_countries: "stream_countries [] (map parse_row other_pair_feed) = [''A'', ''B'']"
  by (simp add: stream_eval other_pair_feed_def)

lemma line_colours_example:
  "draw_order [to_point usa21, to_point chn21] = [''CHN'', ''USA'']"
  "draw_order [to_point (chn21\<lparr>Gold := 5\<rparr>), to_point (usa21\<lparr>Gold := 10\<rparr>)] = [''CHN'', ''USA'']"
  "draw_line_chart [to_point usa21, to_point chn21] uniqueKeys = chart21"
  "draw_line_chart [to_point (chn21\<lparr>Gold := 5\<rparr>), to_point (usa21\<lparr>Gold := 10\<rparr>)] uniqueKeys =
     chart21\<lparr>legend := [(''CHN'', ''#1f77b4''), (''USA'', ''#ff7f0e'')]\<rparr>"
  by (simp_all add: draw_order_def draw_line_chart_def legend_names_def scaleOrdinal_def scale_call_def
      schemeCategory10_def to_point_def usa21_def chn21_def chart21_def uniqueKeys_def Let_def)

lemma swap_mount:
  "chart (mount (Some (QueryRef 0, swap_feed)) False False) =
     Some [\<lparr>paths = [(''#1f77b4'', ''CHN''), (''#ff7f0e'', ''USA'')],
            axes = [''Gold'', ''Silver'', ''Bronze''],
            legend = [(''USA'', ''#ff7f0e''), (''CHN'', ''#1f77b4'')]\<rparr>]"
  by (simp add: line_eval usa21_def chn21_def usa08_def chn08_def swap_feed_def)

lemma swap_year:
  "chart (dispatch (YearChange 2008) (mount (Some (QueryRef 0, swap_feed)) False False)) =
     Some [\<lparr>paths = [(''#1f77b4'', ''USA''), (''#ff7f0e'', ''CHN'')],
            axes = [''Gold'', ''Silver'', ''Bronze''],
            legend = [(''USA'', ''#1f77b4''), (''CHN'', ''#ff7f0e'')]\<rparr>]"
  by (simp add: line_eval usa21_def chn21_def usa08_def chn08_def swap_feed_def)

lemma swap_names:
  "map name (snd (filteredData (mount (Some (QueryRef 0, swap_feed)) False False))) = [''USA'', ''CHN'']"
  "map name (snd (filteredData (dispatch (YearChange 2008)
      (mount (Some (QueryRef 0, swap_feed)) False False)))) = [''USA'', ''CHN'']"
  by (simp_all add: line_eval usa21_def chn21_def usa08_def chn08_def swap_feed_def)

lemma eleven_index: "\<exists>entries. d3_index (map parse_row eleven_feed) = Inr entries"
  by (simp add: stream_eval eleven_feed_def)

lemma error_with_data: "mount (Some (QueryRef 0, feed)) False True =
    s_mounted\<lparr>isError := True, chart := None\<rparr>"
  by (simp add: line_eval example_defs)

section \<open>The claims\<close>

text \<open>
  C1 (the code departs from the claim). The claim: when the filters yield zero rows, the
  chart area is an empty chart frame with no paths of an earlier render, because the
  renderer clears the surface before it draws. The drawing effect returns at
  \<^verbatim>\<open>if (!filteredData.length || !keys.length) return\<close>, before \<^verbatim>\<open>.html("")\<close>. In the
  example session the user stages CHN in 2021, applies, changes the year to 2016 (the
  chart shows USA and GBR) and applies the staged CHN again: no row of 2016 is left, and
  the surface still holds the two paths and the legend of the render before.
\<close>

theorem empty_result_keeps_previous_chart:
  "snd (filteredData (run (mount (Some (QueryRef 0, feed)) False False)
          [StagedChange [''CHN''], Apply, YearChange 2016, Apply])) = [] \<and>
   chart (run (mount (Some (QueryRef 0, feed)) False False)
          [StagedChange [''CHN''], Apply, YearChange 2016, Apply]) =
     Some [\<lparr>paths = [(''#1f77b4'', ''GBR''), (''#ff7f0e'', ''USA'')],
            axes = [''Gold'', ''Silver'', ''Bronze''],
            legend = [(''USA'', ''#ff7f0e''), (''GBR'', ''#1f77b4'')]\<rparr>]"
  by (simp add: example_run) (simp add: example_defs)




text \<open>
  C3, as amended. The transformer of the line chart returns one point per record of the
  filtered subset (the records of the selected year, narrowed to the applied countries
  when there are any), in feed order, each with the country, Gold, Silver and Bronze of
  its record. When the feed has at most one record per year and country, that is exactly
  one point per distinct country of the subset, with no duplicates.
\<close>

theorem transformer_one_point_per_record:
  "length (transform medals y applied) = length (filtered_subset medals y applied) \<and>
   (\<forall>i < length (filtered_subset medals y applied).
      name (transform medals y applied ! i) = Country (filtered_subset medals y applied ! i) \<and>
      sp_Gold (transform medals y applied ! i) = Gold (filtered_subset medals y applied ! i) \<and>
      sp_Silver (transform medals y applied ! i) = Silver (filtered_subset medals y applied ! i) \<and>
      sp_Bronze (transform medals y applied ! i) = Bronze (filtered_subset medals y applied ! i)) \<and>
   (distinct (map (\<lambda>d. (Year d, Country d)) medals) \<longrightarrow>
      distinct (map name (transform medals y applied)) \<and>
      set (map name (transform medals y applied)) = Country ` set (filtered_subset medals y applied))"
  by (auto simp: transform_points to_point_def name_transform filtered_subset_distinct)

text \<open>C3, witness: the feed of the examples, the year 2021, no applied country.\<close>

theorem transformer_one_point_per_record_witness:
  "distinct (map (\<lambda>d. (Year d, Country d)) feed) \<and>
   transform feed 2021 [] =
     [\<lparr>name = ''USA'', sp_Gold = 39, sp_Silver = 41, sp_Bronze = 33\<rparr>,
      \<lparr>name = ''CHN'', sp_Gold = 38, sp_Silver = 32, sp_Bronze = 18\<rparr>] \<and>
   distinct (map name (transform feed 2021 []))"
  using transformer_one_point_per_record[of feed 2021 "[]"]
  by (simp add: transform_def to_point_def feed_def usa21_def chn21_def usa16_def gbr16_def)

text \<open>
  C3, counterexample to the claim as stated: a feed with two records for the USA in 2021
  gives two points named USA.
\<close>

theorem transformer_duplicate_rows:
  "map name (transform [usa21, usa21\<lparr>Gold := 1\<rparr>] 2021 []) = [''USA'', ''USA''] \<and>
   \<not> distinct (map name (transform [usa21, usa21\<lparr>Gold := 1\<rparr>] 2021 []))"
  by (simp add: transform_def to_point_def usa21_def)

text \<open>
  C4. For every record set and every selected year, the transformer with an empty
  applied country list returns what the transformer with no country filter returns.
\<close>

theorem empty_selection_is_no_filter:
  "transform medals y [] = transform_unfiltered medals y"
  by (simp add: transform_def transform_unfiltered_def)

text \<open>C4, at the feed of the examples.\<close>

theorem empty_selection_is_no_filter_witness:
  "transform feed 2021 [] = transform_unfiltered feed 2021 \<and>
   map name (transform feed 2021 []) = [''USA'', ''CHN'']"
  using empty_selection_is_no_filter[of feed 2021]
  by (simp add: transform_unfiltered_def to_point_def feed_def usa21_def chn21_def usa16_def gbr16_def)

text \<open>
  C5. In every state the line chart reaches in which the controls are shown, changing the
  year to \<open>y\<close> leaves the applied country selection empty and the selected year \<open>y\<close>;
  and the pipeline run that follows (there is one unless \<open>y\<close> is 0, which the effect's
  guard takes for no year) computes the points of the year with no country filter,
  whatever was applied before.
\<close>

theorem year_change_resets_applied:
  assumes "controls_shown (run (mount d l e) evs)"
    and "medalsData (run (mount d l e) evs) = Some (r, medals)"
  shows "snd (appliedCountries (dispatch (YearChange y) (run (mount d l e) evs))) = [] \<and>
         selectedYear (dispatch (YearChange y) (run (mount d l e) evs)) = Some y \<and>
         (y \<noteq> 0 \<longrightarrow>
            snd (filteredData (dispatch (YearChange y) (run (mount d l e) evs))) =
              transform_unfiltered medals y)"
  using year_change_settled[OF settled_run refs_ok_run assms]
  by (simp add: transform_no_selection transform_unfiltered_def)

text \<open>
  C5, witness: CHN is applied in 2021; after the change to 2016 the applied selection is
  empty and the points are those of USA and GBR.
\<close>

theorem year_change_resets_applied_witness:
  "controls_shown (run (mount (Some (QueryRef 0, feed)) False False) [StagedChange [''CHN''], Apply]) \<and>
   snd (appliedCountries
         (run (mount (Some (QueryRef 0, feed)) False False) [StagedChange [''CHN''], Apply])) = [''CHN''] \<and>
   snd (appliedCountries (dispatch (YearChange 2016)
         (run (mount (Some (QueryRef 0, feed)) False False) [StagedChange [''CHN''], Apply]))) = [] \<and>
   map name (snd (filteredData (dispatch (YearChange 2016)
         (run (mount (Some (QueryRef 0, feed)) False False) [StagedChange [''CHN''], Apply])))) =
     [''USA'', ''GBR'']"
proof -
  have h1: "controls_shown (run (mount (Some (QueryRef 0, feed)) False False)
              [StagedChange [''CHN''], Apply])"
    by (simp add: example_applied) (simp add: example_defs controls_shown_def view_of_def)
  have h2: "medalsData (run (mount (Some (QueryRef 0, feed)) False False)
              [StagedChange [''CHN''], Apply]) = Some (QueryRef 0, feed)"
    by (simp add: example_applied) (simp add: s_applied_def s_staged_def s_mounted_def)
  have a: "snd (appliedCountries s_applied) = [''CHN'']"
    by (simp add: s_applied_def)
  have t: "map name (transform_unfiltered feed 2016) = [''USA'', ''GBR'']"
    by (simp add: transform_unfiltered_def to_point_def feed_def usa21_def chn21_def usa16_def gbr16_def)
  show ?thesis
    using year_change_resets_applied[OF h1 h2, of 2016] h1 a t
    by (simp add: example_applied)
qed

text \<open>
  C6. From every state the line chart reaches, every sequence of edits of the staged
  selection leaves the applied selection, the transformed points, the keys and the chart
  as they were, and runs neither the transforming nor the drawing effect; the staged
  selection holds the last edit; and Apply then makes the staged selection the applied
  one.
\<close>

theorem staged_edits_do_not_run_pipeline:
  "appliedCountries (run (run (mount d l e) evs) (map StagedChange edits)) =
     appliedCountries (run (mount d l e) evs) \<and>
   filteredData (run (run (mount d l e) evs) (map StagedChange edits)) =
     filteredData (run (mount d l e) evs) \<and>
   keys (run (run (mount d l e) evs) (map StagedChange edits)) = keys (run (mount d l e) evs) \<and>
   chart (run (run (mount d l e) evs) (map StagedChange edits)) = chart (run (mount d l e) evs) \<and>
   n_transform (run (run (mount d l e) evs) (map StagedChange edits)) =
     n_transform (run (mount d l e) evs) \<and>
   n_render (run (run (mount d l e) evs) (map StagedChange edits)) =
     n_render (run (mount d l e) evs) \<and>
   (controls_shown (run (mount d l e) evs) \<longrightarrow> edits \<noteq> [] \<longrightarrow>
      snd (selectedCountries (run (run (mount d l e) evs) (map StagedChange edits))) = last edits) \<and>
   (controls_shown (run (mount d l e) evs) \<longrightarrow>
      appliedCountries (dispatch Apply (run (run (mount d l e) evs) (map StagedChange edits))) =
        selectedCountries (run (run (mount d l e) evs) (map StagedChange edits)))"
  using staged_edits_frame[OF settled_run, of d l e evs edits]
    staged_edits_selection[OF settled_run, of d l e evs edits]
    apply_commits[of "run (run (mount d l e) evs) (map StagedChange edits)"]
  by simp

text \<open>
  C6, witness: two edits after mounting; the staged selection is CHN, the applied one
  still empty, each effect has run once (at mount); Apply then applies CHN.
\<close>

theorem staged_edits_do_not_run_pipeline_witness:
  "controls_shown (run (mount (Some (QueryRef 0, feed)) False False) []) \<and>
   snd (selectedCountries (run (run (mount (Some (QueryRef 0, feed)) False False) [])
         (map StagedChange [[''USA''], [''CHN'']]))) = [''CHN''] \<and>
   snd (appliedCountries (run (run (mount (Some (QueryRef 0, feed)) False False) [])
         (map StagedChange [[''USA''], [''CHN'']]))) = [] \<and>
   n_transform (run (run (mount (Some (QueryRef 0, feed)) False False) [])
         (map StagedChange [[''USA''], [''CHN'']])) = 1 \<and>
   n_render (run (run (mount (Some (QueryRef 0, feed)) False False) [])
         (map StagedChange [[''USA''], [''CHN'']])) = 1 \<and>
   snd (appliedCountries (dispatch Apply (run (run (mount (Some (QueryRef 0, feed)) False False) [])
         (map StagedChange [[''USA''], [''CHN'']])))) = [''CHN'']"
proof -
  have h: "controls_shown (run (mount (Some (QueryRef 0, feed)) False False) [])"
    by (simp add: step_mount) (simp add: example_defs controls_shown_def view_of_def)
  have m: "snd (appliedCountries s_mounted) = []" "n_transform s_mounted = 1" "n_render s_mounted = 1"
    by (simp_all add: s_mounted_def)
  show ?thesis
    using staged_edits_do_not_run_pipeline[of "Some (QueryRef 0, feed)" False False "[]"
        "[[''USA''], [''CHN'']]"] h m
    by (simp add: step_mount)
qed

text \<open>
  C7. With an empty selection the country universe of the stream graph is the first ten
  of the distinct countries of the feed, and these stand in first-seen order (no
  duplicates, the countries of the feed, ordered by first position); with a non-empty
  selection it is the selection. The keys of the stacked areas and the legend are the
  universe, and area and legend colours are the palette entries at the positions of the
  countries in it.
\<close>

theorem stream_country_universe:
  "(selected = [] \<longrightarrow>
      stream_countries selected (map parse_row gdp) = take 10 (js_unique (map gdp_Country gdp))) \<and>
   (selected \<noteq> [] \<longrightarrow> stream_countries selected (map parse_row gdp) = selected) \<and>
   distinct (js_unique (map gdp_Country gdp)) \<and>
   set (js_unique (map gdp_Country gdp)) = set (map gdp_Country gdp) \<and>
   sorted_wrt (\<lambda>a b. first_index (map gdp_Country gdp) a < first_index (map gdp_Country gdp) b)
     (js_unique (map gdp_Country gdp)) \<and>
   (\<forall>svg. draw_stream gdp selected = Inr svg \<longrightarrow>
      map (fst \<circ> snd) (areas svg) = stream_countries selected (map parse_row gdp) \<and>
      map fst (s_legend svg) = stream_countries selected (map parse_row gdp) \<and>
      map fst (areas svg) =
        map (colour_at schemeTableau10 (stream_countries selected (map parse_row gdp)))
            (stream_countries selected (map parse_row gdp)) \<and>
      map snd (s_legend svg) = map fst (areas svg))"
proof -
  have "stream_countries [] (map parse_row gdp) = take 10 (js_unique (map gdp_Country gdp))"
    unfolding stream_countries_def country_parse by simp
  moreover have "selected \<noteq> [] \<Longrightarrow> stream_countries selected (map parse_row gdp) = selected"
    by (simp add: stream_countries_def)
  moreover have "draw_stream gdp selected = Inr svg \<Longrightarrow>
      map (fst \<circ> snd) (areas svg) = stream_countries selected (map parse_row gdp) \<and>
      map fst (s_legend svg) = stream_countries selected (map parse_row gdp) \<and>
      map fst (areas svg) =
        map (colour_at schemeTableau10 (stream_countries selected (map parse_row gdp)))
            (stream_countries selected (map parse_row gdp)) \<and>
      map snd (s_legend svg) = map fst (areas svg)" for svg
    using draw_stream_colours[of gdp selected svg] by (simp add: comp_def)
  ultimately show ?thesis
    using js_unique_first_seen[of "map gdp_Country gdp"] by auto
qed

text \<open>
  C7, witness: eleven countries; KOR comes eleventh and is left out although its value is
  larger than that of CHN or IND; selected, KOR and USA are the universe.
\<close>

theorem stream_country_universe_witness:
  "stream_countries [] (map parse_row eleven_feed) =
     [''USA'', ''CHN'', ''JPN'', ''DEU'', ''IND'', ''GBR'', ''FRA'', ''ITA'', ''BRA'', ''CAN''] \<and>
   js_unique (map gdp_Country eleven_feed) =
     [''USA'', ''CHN'', ''JPN'', ''DEU'', ''IND'', ''GBR'', ''FRA'', ''ITA'', ''BRA'', ''CAN'', ''KOR''] \<and>
   stream_countries [''KOR'', ''USA''] (map parse_row eleven_feed) = [''KOR'', ''USA''] \<and>
   map_sum id (\<lambda>svg. map fst (s_legend svg)) (draw_stream eleven_feed []) =
     Inr [''USA'', ''CHN'', ''JPN'', ''DEU'', ''IND'', ''GBR'', ''FRA'', ''ITA'', ''BRA'', ''CAN'']"
  using stream_country_universe[of "[]" eleven_feed]
    stream_country_universe[of "[''KOR'', ''USA'']" eleven_feed]
  by (simp add: eleven_all eleven_legend)

text \<open>
  C8, as amended. In both charts the colour of a key is the palette entry at the key's
  first-seen position among the keys the scale is given, cycled. For the stream graph
  these keys are the country universe: two drawings with the same universe give the same
  fills and the same legend, whatever the GDP values. For the line chart they are the
  names of the points in the order the paths are drawn in, by Gold ascending: two
  drawings give every path and every legend entry the same colour when that order of
  names is the same; the same names in the same order of the feed do not suffice.
\<close>

theorem colours_follow_category_order:
  "(draw_order fd1 = draw_order fd2 \<longrightarrow>
      map fst (paths (draw_line_chart fd1 ks1)) = map fst (paths (draw_line_chart fd2 ks2)) \<and>
      (\<forall>c. map_of (legend (draw_line_chart fd1 ks1)) c = map_of (legend (draw_line_chart fd2 ks2)) c)) \<and>
   (stream_countries sel1 (map parse_row gdp1) = stream_countries sel2 (map parse_row gdp2) \<longrightarrow>
      draw_stream gdp1 sel1 = Inr svg1 \<longrightarrow> draw_stream gdp2 sel2 = Inr svg2 \<longrightarrow>
      map fst (areas svg1) = map fst (areas svg2) \<and> s_legend svg1 = s_legend svg2) \<and>
   map fst (paths (draw_line_chart fd1 ks1)) =
     map (colour_at schemeCategory10 (draw_order fd1)) (draw_order fd1) \<and>
   (draw_stream gdp1 sel1 = Inr svg1 \<longrightarrow>
      map fst (areas svg1) =
        map (colour_at schemeTableau10 (stream_countries sel1 (map parse_row gdp1)))
            (stream_countries sel1 (map parse_row gdp1)))"
proof -
  have line: "map fst (paths (draw_line_chart fd1 ks1)) = map fst (paths (draw_line_chart fd2 ks2)) \<and>
      (\<forall>c. map_of (legend (draw_line_chart fd1 ks1)) c = map_of (legend (draw_line_chart fd2 ks2)) c)"
    if eq: "draw_order fd1 = draw_order fd2"
  proof -
    have "set (legend_names (map name fd1)) = set (legend_names (map name fd2))"
      using set_draw_order[of fd1] set_draw_order[of fd2] eq by (simp add: legend_names_set)
    then show ?thesis
      by (simp add: draw_line_chart_colours map_of_legend eq)
  qed
  have stream: "map fst (areas svg1) = map fst (areas svg2) \<and> s_legend svg1 = s_legend svg2"
    if "stream_countries sel1 (map parse_row gdp1) = stream_countries sel2 (map parse_row gdp2)"
      "draw_stream gdp1 sel1 = Inr svg1" "draw_stream gdp2 sel2 = Inr svg2"
    using draw_stream_colours(1,3)[OF that(2)] draw_stream_colours(1,3)[OF that(3)] that(1)
    by simp
  show ?thesis
    using line stream draw_line_chart_colours(1)[of fd1 ks1] draw_stream_colours(1)[of gdp1 sel1 svg1]
    by blast
qed


text \<open>
  C8, witness: two line charts of USA and CHN with different medal counts, and two stream
  graphs of A and B with different values.
\<close>

theorem colours_follow_category_order_witness:
  "draw_order [to_point usa21, to_point chn21] =
     draw_order [to_point (chn21\<lparr>Gold := 5\<rparr>), to_point (usa21\<lparr>Gold := 10\<rparr>)] \<and>
   map fst (paths (draw_line_chart [to_point usa21, to_point chn21] uniqueKeys)) =
     [''#1f77b4'', ''#ff7f0e''] \<and>
   map fst (paths (draw_line_chart
       [to_point (chn21\<lparr>Gold := 5\<rparr>), to_point (usa21\<lparr>Gold := 10\<rparr>)] uniqueKeys)) =
     [''#1f77b4'', ''#ff7f0e''] \<and>
   stream_countries [] (map parse_row pair_feed) = stream_countries [] (map parse_row other_pair_feed) \<and>
   map_sum id (\<lambda>svg. map fst (areas svg)) (draw_stream pair_feed []) = Inr [''#4e79a7'', ''#f28e2c''] \<and>
   map_sum id (\<lambda>svg. map fst (areas svg)) (draw_stream other_pair_feed []) =
     Inr [''#4e79a7'', ''#f28e2c'']"
  using colours_follow_category_order[where
      ?fd1.0 = "[to_point usa21, to_point chn21]" and
      ?fd2.0 = "[to_point (chn21\<lparr>Gold := 5\<rparr>), to_point (usa21\<lparr>Gold := 10\<rparr>)]" and
      ?ks1.0 = uniqueKeys and ?ks2.0 = uniqueKeys and
      ?sel1.0 = "[]" and ?gdp1.0 = pair_feed and ?sel2.0 = "[]" and ?gdp2.0 = other_pair_feed and
      ?svg1.0 = "\<lparr>areas = [(''#4e79a7'', ''A'', [(2, 3), (9 / 8, 33 / 8)]),
                   (''#f28e2c'', ''B'', [(0, 2), (1 / 8, 9 / 8)])],
          s_legend = [(''A'', ''#4e79a7''), (''B'', ''#f28e2c'')],
          domain_y = Some (0, 33 / 8)\<rparr>" and
      ?svg2.0 = "\<lparr>areas = [(''#4e79a7'', ''A'', [(0, 7)]), (''#f28e2c'', ''B'', [(7, 16)])],
          s_legend = [(''A'', ''#4e79a7''), (''B'', ''#f28e2c'')],
          domain_y = Some (0, 16)\<rparr>"]
  by (simp add: line_colours_example pair_svg other_pair_svg pair_countries other_pair_countries
      chart21_def)

text \<open>
  C8, counterexample to the claim as stated: USA and CHN, in this order, in both years of
  the feed. In 2021 CHN has fewer Gold medals than USA, is drawn first and gets the first
  colour; in 2008 USA has fewer and gets it. After the change of the year from 2021 to
  2008 the same two names, in the same order, have exchanged their colours.
\<close>

theorem line_colours_change_with_gold_ranking:
  "map name (snd (filteredData (mount (Some (QueryRef 0, swap_feed)) False False))) =
     [''USA'', ''CHN''] \<and>
   map name (snd (filteredData (dispatch (YearChange 2008)
     (mount (Some (QueryRef 0, swap_feed)) False False)))) = [''USA'', ''CHN''] \<and>
   chart (mount (Some (QueryRef 0, swap_feed)) False False) =
     Some [\<lparr>paths = [(''#1f77b4'', ''CHN''), (''#ff7f0e'', ''USA'')],
            axes = [''Gold'', ''Silver'', ''Bronze''],
            legend = [(''USA'', ''#ff7f0e''), (''CHN'', ''#1f77b4'')]\<rparr>] \<and>
   chart (dispatch (YearChange 2008) (mount (Some (QueryRef 0, swap_feed)) False False)) =
     Some [\<lparr>paths = [(''#1f77b4'', ''USA''), (''#ff7f0e'', ''CHN'')],
            axes = [''Gold'', ''Silver'', ''Bronze''],
            legend = [(''USA'', ''#1f77b4''), (''CHN'', ''#ff7f0e'')]\<rparr>] \<and>
   map_of (legend (draw_line_chart [to_point usa21, to_point chn21] uniqueKeys)) ''USA'' =
     Some ''#ff7f0e'' \<and>
   map_of (legend (draw_line_chart [to_point usa08, to_point chn08] uniqueKeys)) ''USA'' =
     Some ''#1f77b4''"
  by (simp add: swap_names swap_mount swap_year)
     (simp add: draw_order_def draw_line_chart_def legend_names_def scaleOrdinal_def scale_call_def
        schemeCategory10_def to_point_def usa21_def chn21_def usa08_def chn08_def uniqueKeys_def Let_def)

text \<open>
  C9, as amended. When the data hook reports loading or an error, at mount or later, each
  component returns its message and nothing else, and the chart element is not in the
  document, so it holds no axes, paths or legend. The effects are not gated by the two
  flags but by the data: when the result carries no data, neither the transforming nor
  the drawing effect of the line chart runs and the effect of the stream graph returns at
  its guard.
\<close>

theorem loading_or_error_shows_message_only:
  assumes "l \<or> e"
  shows "view_of (mount d l e) = Inr (Message (line_message l)) \<and>
         chart (mount d l e) = None \<and>
         (d = None \<longrightarrow> n_transform (mount d l e) = 0 \<and> n_render (mount d l e) = 0) \<and>
         (\<not> crashed (run (mount d0 l0 e0) evs) \<longrightarrow>
            view_of (dispatch (Query d l e) (run (mount d0 l0 e0) evs)) =
              Inr (Message (line_message l)) \<and>
            chart (dispatch (Query d l e) (run (mount d0 l0 e0) evs)) = None) \<and>
         (d = None \<longrightarrow>
            n_transform (dispatch (Query d l e) (run (mount d0 l0 e0) evs)) =
              n_transform (run (mount d0 l0 e0) evs) \<and>
            n_render (dispatch (Query d l e) (run (mount d0 l0 e0) evs)) =
              n_render (run (mount d0 l0 e0) evs)) \<and>
         stream_view (g\<lparr>gdpData := gd, g_isLoading := l, g_isError := e\<rparr>) =
           Inr (Message (stream_message l)) \<and>
         (\<forall>g'. stream_commit (g\<lparr>gdpData := gd, g_isLoading := l, g_isError := e\<rparr>) = Inr g' \<longrightarrow>
            svgRef g' = None) \<and>
         (gd = None \<longrightarrow>
            stream_commit (g\<lparr>gdpData := gd, g_isLoading := l, g_isError := e\<rparr>) =
              Inr (g\<lparr>gdpData := gd, g_isLoading := l, g_isError := e, svgRef := None\<rparr>))"
proof -
  let ?st = "run (mount d0 l0 e0) evs"
  let ?g = "g\<lparr>gdpData := gd, g_isLoading := l, g_isError := e\<rparr>"
  note v = stream_message_view[OF assms, where g = g and gd = gd]
  have "gd = None \<Longrightarrow> stream_commit ?g = Inr (?g\<lparr>svgRef := None\<rparr>)"
    using stream_commit_message(2)[OF v] by simp
  moreover have "stream_commit ?g = Inr g' \<Longrightarrow> svgRef g' = None" for g'
    by (rule stream_commit_message(1)[OF v])
  moreover have "d = None \<Longrightarrow>
      n_transform (dispatch (Query d l e) ?st) = n_transform ?st \<and>
      n_render (dispatch (Query d l e) ?st) = n_render ?st"
    using query_no_data[OF settled_run[of d0 l0 e0 evs], of l e] by simp
  ultimately show ?thesis
    using mount_message[OF assms, of d] query_message[OF assms, of ?st d] v by simp
qed

text \<open>
  C9, witness: an error without data, at mount and after the chart had been drawn.
\<close>

theorem loading_or_error_shows_message_only_witness:
  "(False \<or> True) \<and> \<not> crashed (run (mount (Some (QueryRef 0, feed)) False False) []) \<and>
   view_of (mount None False True) = Inr (Message ''Failed to load data.'') \<and>
   chart (mount None False True) = None \<and>
   n_transform (mount None False True) = 0 \<and> n_render (mount None False True) = 0 \<and>
   view_of (dispatch (Query None False True) (run (mount (Some (QueryRef 0, feed)) False False) [])) =
     Inr (Message ''Failed to load data.'') \<and>
   chart (dispatch (Query None False True) (run (mount (Some (QueryRef 0, feed)) False False) [])) = None \<and>
   n_transform (dispatch (Query None False True)
     (run (mount (Some (QueryRef 0, feed)) False False) [])) = 1 \<and>
   n_render (dispatch (Query None False True)
     (run (mount (Some (QueryRef 0, feed)) False False) [])) = 1 \<and>
   stream_view \<lparr>gdpData = None, g_isLoading = False, g_isError = True,
      g_selectedCountries = [], svgRef = None, g_runs = 0\<rparr> = Inr (Message ''Error loading data.'') \<and>
   stream_commit \<lparr>gdpData = None, g_isLoading = False, g_isError = True,
      g_selectedCountries = [], svgRef = None, g_runs = 0\<rparr> =
     Inr \<lparr>gdpData = None, g_isLoading = False, g_isError = True,
      g_selectedCountries = [], svgRef = None, g_runs = 0\<rparr>"
proof -
  have h: "False \<or> True" by simp
  have c: "\<not> crashed (run (mount (Some (QueryRef 0, feed)) False False) [])"
    by (simp add: step_mount) (simp add: s_mounted_def)
  have n: "n_transform s_mounted = 1" "n_render s_mounted = 1" by (simp_all add: s_mounted_def)
  show ?thesis
    using loading_or_error_shows_message_only[OF h, where d = None and
        ?d0.0 = "Some (QueryRef 0, feed)" and ?l0.0 = False and ?e0.0 = False and evs = "[]" and
        gd = None and
        g = "\<lparr>gdpData = None, g_isLoading = False, g_isError = True,
              g_selectedCountries = [], svgRef = None, g_runs = 0\<rparr>"] c n
    by (simp add: step_mount line_message_def stream_message_def)
qed

text \<open>
  C9, counterexample to the claim as stated: the line chart mounts with an error and data
  (a failed refetch keeps the data of the last success). The transformer runs and fills
  \<^verbatim>\<open>filteredData\<close>; nothing is drawn, the chart element being absent. The effect of the
  stream graph runs likewise.
\<close>

theorem error_with_data_runs_transformer:
  "isError (mount (Some (QueryRef 0, feed)) False True) \<and>
   view_of (mount (Some (QueryRef 0, feed)) False True) = Inr (Message ''Failed to load data.'') \<and>
   n_transform (mount (Some (QueryRef 0, feed)) False True) = 1 \<and>
   map name (snd (filteredData (mount (Some (QueryRef 0, feed)) False True))) = [''USA'', ''CHN''] \<and>
   chart (mount (Some (QueryRef 0, feed)) False True) = None \<and>
   map_sum id g_runs (stream_commit \<lparr>gdpData = Some pair_feed, g_isLoading = False, g_isError = True,
      g_selectedCountries = [], svgRef = None, g_runs = 0\<rparr>) = Inr 1"
  by (simp add: error_with_data)
     (simp add: example_defs view_of_def to_point_def stream_commit_def stream_view_def
        stream_effect_def mount_chart_def pair_svg)

text \<open>
  C10. When the options passed to the multi-select's \<^verbatim>\<open>onChange\<close> include the one with the
  value All, the selection becomes empty, so the country universe of the next drawing is
  the first ten distinct countries of the feed (at most ten, not all of them), and these
  are the keys of the areas and the entries of the legend. In the component: when the
  data is there and neither flag is set, the render that follows the change runs the
  effect once, and the chart element then holds one drawing, whose legend and areas are
  those of the first ten countries; the render returns whenever the index of the feed
  builds.
\<close>

theorem all_option_falls_back_to_first_ten:
  assumes "list_ex (\<lambda>option. opt_value option = ''All'') selected"
  shows "g_selectedCountries (select_onChange selected st) = [] \<and>
         stream_countries (g_selectedCountries (select_onChange selected st)) (map parse_row gdp) =
           take 10 (js_unique (map gdp_Country gdp)) \<and>
         length (stream_countries (g_selectedCountries (select_onChange selected st))
                   (map parse_row gdp)) \<le> 10 \<and>
         (\<forall>svg. draw_stream gdp (g_selectedCountries (select_onChange selected st)) = Inr svg \<longrightarrow>
            map fst (s_legend svg) = take 10 (js_unique (map gdp_Country gdp)) \<and>
            map (fst \<circ> snd) (areas svg) = take 10 (js_unique (map gdp_Country gdp))) \<and>
         (gdpData st = Some gdp \<and> \<not> g_isLoading st \<and> \<not> g_isError st \<longrightarrow>
            (\<forall>st'. stream_commit (select_onChange selected st) = Inr st' \<longrightarrow>
               g_selectedCountries st' = [] \<and> g_runs st' = g_runs st + 1 \<and>
               (\<exists>svg. svgRef st' = Some [svg] \<and>
                  map fst (s_legend svg) = take 10 (js_unique (map gdp_Country gdp)) \<and>
                  map (fst \<circ> snd) (areas svg) = take 10 (js_unique (map gdp_Country gdp)))) \<and>
            (\<forall>entries. d3_index (map parse_row gdp) = Inr entries \<longrightarrow>
               (\<exists>st'. stream_commit (select_onChange selected st) = Inr st')))"
proof -
  let ?st = "select_onChange selected st"
  have e: "g_selectedCountries ?st = []"
    using assms by (simp add: select_onChange_def)
  have k: "stream_countries [] (map parse_row gdp) = take 10 (js_unique (map gdp_Country gdp))"
    unfolding stream_countries_def country_parse by simp
  have d: "map fst (s_legend svg) = take 10 (js_unique (map gdp_Country gdp)) \<and>
           map (fst \<circ> snd) (areas svg) = take 10 (js_unique (map gdp_Country gdp))"
    if "draw_stream gdp [] = Inr svg" for svg
    using draw_stream_colours[OF that] by (simp add: k comp_def)
  have c: "g_selectedCountries st' = [] \<and> g_runs st' = g_runs st + 1 \<and>
           (\<exists>svg. svgRef st' = Some [svg] \<and>
              map fst (s_legend svg) = take 10 (js_unique (map gdp_Country gdp)) \<and>
              map (fst \<circ> snd) (areas svg) = take 10 (js_unique (map gdp_Country gdp)))"
    if shown: "gdpData st = Some gdp" "\<not> g_isLoading st" "\<not> g_isError st"
      and ret: "stream_commit ?st = Inr st'" for st'
  proof -
    have g: "gdpData ?st = Some gdp" "\<not> g_isLoading ?st" "\<not> g_isError ?st"
      "g_runs ?st = g_runs st"
      using shown by (simp_all add: select_onChange_def)
    from ret obtain svg where svg: "draw_stream gdp [] = Inr svg"
      and st': "st' = ?st\<lparr>svgRef := Some [svg], g_runs := g_runs ?st + 1\<rparr>"
      unfolding stream_commit_draws[OF g(1,2,3)] e
      by (cases "draw_stream gdp []") auto
    show ?thesis using d[OF svg] by (simp add: st' e g(4))
  qed
  have r: "\<exists>st'. stream_commit ?st = Inr st'"
    if shown: "gdpData st = Some gdp" "\<not> g_isLoading st" "\<not> g_isError st"
      and idx: "d3_index (map parse_row gdp) = Inr entries" for entries
  proof -
    have g: "gdpData ?st = Some gdp" "\<not> g_isLoading ?st" "\<not> g_isError ?st"
      using shown by (simp_all add: select_onChange_def)
    from draw_stream_returns[OF idx] obtain svg where "draw_stream gdp [] = Inr svg" by blast
    then show ?thesis unfolding stream_commit_draws[OF g] e by simp
  qed
  show ?thesis using d c r by (simp add: e k)
qed

text \<open>
  C10, witness: KOR and All selected on the feed of eleven countries, KOR having been the
  selection. The selection becomes empty, and the render that follows leaves one drawing
  in the chart element, with the first ten of the eleven countries in its legend.
\<close>

theorem all_option_falls_back_to_first_ten_witness:
  "list_ex (\<lambda>option. opt_value option = ''All'')
     [\<lparr>opt_value = ''KOR'', opt_label = ''KOR''\<rparr>, \<lparr>opt_value = ''All'', opt_label = ''All Countries''\<rparr>] \<and>
   g_selectedCountries (select_onChange
     [\<lparr>opt_value = ''KOR'', opt_label = ''KOR''\<rparr>, \<lparr>opt_value = ''All'', opt_label = ''All Countries''\<rparr>]
     \<lparr>gdpData = Some eleven_feed, g_isLoading = False, g_isError = False,
      g_selectedCountries = [''KOR''], svgRef = Some [], g_runs = 1\<rparr>) = [] \<and>
   stream_countries (g_selectedCountries (select_onChange
     [\<lparr>opt_value = ''KOR'', opt_label = ''KOR''\<rparr>, \<lparr>opt_value = ''All'', opt_label = ''All Countries''\<rparr>]
     \<lparr>gdpData = Some eleven_feed, g_isLoading = False, g_isError = False,
      g_selectedCountries = [''KOR''], svgRef = Some [], g_runs = 1\<rparr>)) (map parse_row eleven_feed) =
     [''USA'', ''CHN'', ''JPN'', ''DEU'', ''IND'', ''GBR'', ''FRA'', ''ITA'', ''BRA'', ''CAN''] \<and>
   length (js_unique (map gdp_Country eleven_feed)) = 11 \<and>
   (\<exists>st' svg. stream_commit (select_onChange
       [\<lparr>opt_value = ''KOR'', opt_label = ''KOR''\<rparr>, \<lparr>opt_value = ''All'', opt_label = ''All Countries''\<rparr>]
       \<lparr>gdpData = Some eleven_feed, g_isLoading = False, g_isError = False,
        g_selectedCountries = [''KOR''], svgRef = Some [], g_runs = 1\<rparr>) = Inr st' \<and>
      svgRef st' = Some [svg] \<and> g_runs st' = 2 \<and>
      map fst (s_legend svg) =
        [''USA'', ''CHN'', ''JPN'', ''DEU'', ''IND'', ''GBR'', ''FRA'', ''ITA'', ''BRA'', ''CAN''])"
proof -
  let ?sel = "[\<lparr>opt_value = ''KOR'', opt_label = ''KOR''\<rparr>,
               \<lparr>opt_value = ''All'', opt_label = ''All Countries''\<rparr>]"
  let ?st = "\<lparr>gdpData = Some eleven_feed, g_isLoading = False, g_isError = False,
              g_selectedCountries = [''KOR''], svgRef = Some [], g_runs = 1\<rparr>"
  have h: "list_ex (\<lambda>option. opt_value option = ''All'') ?sel" by simp
  from eleven_index obtain entries where idx: "d3_index (map parse_row eleven_feed) = Inr entries" ..
  note t = all_option_falls_back_to_first_ten[OF h, of ?st eleven_feed]
  from t idx obtain st' where ret: "stream_commit (select_onChange ?sel ?st) = Inr st'"
    by auto
  with t obtain svg where "svgRef st' = Some [svg]" "g_runs st' = 2"
    "map fst (s_legend svg) = take 10 (js_unique (map gdp_Country eleven_feed))"
    by auto
  then have "\<exists>st' svg. stream_commit (select_onChange ?sel ?st) = Inr st' \<and>
      svgRef st' = Some [svg] \<and> g_runs st' = 2 \<and>
      map fst (s_legend svg) =
        [''USA'', ''CHN'', ''JPN'', ''DEU'', ''IND'', ''GBR'', ''FRA'', ''ITA'', ''BRA'', ''CAN'']"
    using ret by (auto simp: eleven_all)
  then show ?thesis using t h by (simp add: eleven_all eleven_countries)
qed


end
